theory Spec2Isabelle
  imports Complex_Main
begin

section \<open>Conventions of the embedding\<close>

text \<open>
  The program is the browser front end of the stress detector: the classes
  \<^verbatim>\<open>KeyboardTracker\<close>, \<^verbatim>\<open>MouseTracker\<close>, \<^verbatim>\<open>StressVisualization\<close> and
  \<^verbatim>\<open>StressDetectionApp\<close>.  Every class is a record of its fields, every method a
  function from the object (and the data the browser supplies) to the updated object.

  \<^item> A JavaScript number is a \<^typ>\<open>real\<close>; the counters, which only ever start at 0 and are
    incremented, are \<^typ>\<open>nat\<close>.  Where the program turns a computed number into an
    integer (\<^verbatim>\<open>Math.round\<close> in \<^verbatim>\<open>calculateTypingSpeed\<close>), the last bit of the
    number decides the result, so there every operation is rounded to a double as the
    program rounds it.  Elsewhere the rounding of doubles is not modelled.
  \<^item> A \<^verbatim>\<open>Date\<close> is its time value, an \<^typ>\<open>int\<close> of milliseconds.  The trackers store
    \<^verbatim>\<open>toISOString()\<close> of a date and read it back with \<^verbatim>\<open>new Date(string)\<close>; that
    round trip keeps the milliseconds, so the stored timestamp is the time value itself.
  \<^item> What a listener reads from the browser (the event's fields, the clock, the draw of
    \<^verbatim>\<open>Math.random()\<close>, the rectangle of the canvas) is an argument of the function.
  \<^item> Writes to the DOM and the console do not change any field of the objects and are
    left out.  Sending on the web socket changes no field either, but it throws while the
    socket is still connecting; where a listener has work left after the send, the
    exception is a branch of the model.
  \<^item> The page is taken to be served over http(s) and to contain the elements the program
    looks up, so that the constructor of the application completes and
    \<^verbatim>\<open>window.stressApp\<close> is the application.
\<close>

section \<open>Double-precision arithmetic\<close>

text \<open>
  The result of an arithmetic operation of the program is the exact result rounded to the
  nearest double, a tie going to the double with the even significand.  A double other
  than 0 is an integer of 53 bits times a power of two: where \<^verbatim>\<open>2^e <= |x| < 2^(e+1)\<close>,
  the doubles around \<open>x\<close> are the multiples of \<^verbatim>\<open>2^(e-52)\<close>.  The range of the exponent
  is not bounded here: array lengths below \<^verbatim>\<open>2^32\<close> and time values in the range of
  \<^verbatim>\<open>Date\<close> keep every number of \<^verbatim>\<open>calculateTypingSpeed\<close> far from overflow and
  underflow, as is proved below.
\<close>

definition roundTiesToEven :: "real \<Rightarrow> int" where
  "roundTiesToEven y =
     (let f = \<lfloor>y\<rfloor>; r = y - real_of_int f
      in if r < 1 / 2 then f
         else if 1 / 2 < r then f + 1
         else if even f then f else f + 1)"

definition binade :: "real \<Rightarrow> int" where
  "binade x = \<lfloor>log 2 \<bar>x\<bar>\<rfloor>"

definition quantum :: "real \<Rightarrow> real" where
  "quantum x = 2 powi (binade x - 52)"

definition toDouble :: "real \<Rightarrow> real" where
  "toDouble x =
     (if x = 0 then 0 else real_of_int (roundTiesToEven (x / quantum x)) * quantum x)"

text \<open>
  The doubles with the full 53 bits, which the exponent range of the format admits: a
  number is rounded as \<^const>\<open>toDouble\<close> rounds it when it lies in this range.
\<close>

definition normalDouble :: "real \<Rightarrow> bool" where
  "normalDouble x = (2 powi (- 1022) \<le> \<bar>x\<bar> \<and> \<bar>x\<bar> < 2 powi 1024)"

section \<open>KeyboardTracker\<close>

text \<open>The object literal \<^verbatim>\<open>keyData\<close>; only key-down entries carry a pressure.\<close>

record key_data =
  key :: string
  code :: string
  timestamp :: int
  eventType :: string
  pressure :: "real option"

record keyboard_tracker =
  keyEvents :: "key_data list"
  sessionStartTime :: "int option"
  isTracking :: bool
  lastKeyPressTime :: "int option"
  backspaceCount :: nat
  totalKeyPresses :: nat

definition new_KeyboardTracker :: keyboard_tracker where
  "new_KeyboardTracker =
     \<lparr>keyEvents = [], sessionStartTime = None, isTracking = False,
      lastKeyPressTime = None, backspaceCount = 0, totalKeyPresses = 0\<rparr>"

text \<open>The \<^verbatim>\<open>keydown\<close> listener; \<open>k\<close> and \<open>c\<close> are \<^verbatim>\<open>event.key\<close> and \<^verbatim>\<open>event.code\<close>.\<close>

definition keydown :: "string \<Rightarrow> string \<Rightarrow> int \<Rightarrow> keyboard_tracker \<Rightarrow> keyboard_tracker" where
  "keydown k c now t =
     (if \<not> isTracking t then t
      else
        let keyData = \<lparr>key = k, code = c, timestamp = now, eventType = ''keydown'',
                        pressure = Some 1\<rparr>;
            t1 = t\<lparr>keyEvents := keyEvents t @ [keyData],
                   totalKeyPresses := totalKeyPresses t + 1\<rparr>
        in if k = ''Backspace'' \<or> k = ''Delete''
           then t1\<lparr>backspaceCount := backspaceCount t1 + 1\<rparr>
           else t1)"

definition keyup :: "string \<Rightarrow> string \<Rightarrow> int \<Rightarrow> keyboard_tracker \<Rightarrow> keyboard_tracker" where
  "keyup k c now t =
     (if \<not> isTracking t then t
      else
        let keyData = \<lparr>key = k, code = c, timestamp = now, eventType = ''keyup'',
                        pressure = None\<rparr>
        in t\<lparr>keyEvents := keyEvents t @ [keyData]\<rparr>)"

definition KeyboardTracker_startTracking :: "int \<Rightarrow> keyboard_tracker \<Rightarrow> keyboard_tracker" where
  "KeyboardTracker_startTracking now t =
     t\<lparr>isTracking := True, sessionStartTime := Some now, keyEvents := [],
       backspaceCount := 0, totalKeyPresses := 0\<rparr>"

definition KeyboardTracker_stopTracking :: "keyboard_tracker \<Rightarrow> keyboard_tracker" where
  "KeyboardTracker_stopTracking t = t\<lparr>isTracking := False\<rparr>"

definition KeyboardTracker_reset :: "keyboard_tracker \<Rightarrow> keyboard_tracker" where
  "KeyboardTracker_reset t =
     t\<lparr>keyEvents := [], backspaceCount := 0, totalKeyPresses := 0,
       lastKeyPressTime := None\<rparr>"

text \<open>
  \<^verbatim>\<open>calculateTypingSpeed\<close>.  Subtracting the two dates, the three divisions and the
  multiplication each give a double; \<^verbatim>\<open>Math.round\<close> takes a double to the nearest
  integer, a tie going up, which is \<^const>\<open>round\<close>.
\<close>

definition calculateTypingSpeed :: "keyboard_tracker \<Rightarrow> int" where
  "calculateTypingSpeed t =
     (if length (keyEvents t) < 2 then 0
      else
        let keyDownEvents = filter (\<lambda>e. eventType e = ''keydown'') (keyEvents t)
        in if length keyDownEvents < 2 then 0
           else
             let firstEvent = timestamp (keyDownEvents ! 0);
                 lastEvent = timestamp (keyDownEvents ! (length keyDownEvents - 1));
                 timeDiff = toDouble (toDouble (real_of_int (lastEvent - firstEvent)) / 1000)
             in if timeDiff = 0 then 0
                else
                  let charsPerMinute =
                        toDouble (toDouble (real (length keyDownEvents) / timeDiff) * 60);
                      wpm = toDouble (charsPerMinute / 5)
                  in round wpm)"

definition calculateKeyPressVariance :: "keyboard_tracker \<Rightarrow> real" where
  "calculateKeyPressVariance t =
     (if length (keyEvents t) < 2 then 0
      else
        let backspaceRatio = real (backspaceCount t) / real (max (totalKeyPresses t) 1)
        in backspaceRatio * 0.3)"

text \<open>The entry \<^verbatim>\<open>backspaceRatio\<close> of \<^verbatim>\<open>getStats()\<close>.\<close>

definition backspaceRatio :: "keyboard_tracker \<Rightarrow> real" where
  "backspaceRatio t = real (backspaceCount t) / real (max (totalKeyPresses t) 1)"

section \<open>MouseTracker\<close>

text \<open>
  The entries of \<^verbatim>\<open>mouseEvents\<close>: the object literals \<^verbatim>\<open>movementData\<close>,
  \<^verbatim>\<open>clickData\<close> and \<^verbatim>\<open>wheelData\<close>.  A field that a literal does not have is
  unspecified in the model, as it is \<^verbatim>\<open>undefined\<close> in the program; no function below
  reads one.  The literal built by the \<^verbatim>\<open>mouseup\<close> listener is only sent to the
  socket, never stored.
\<close>

datatype mouse_data =
    MoveData (m_x: real) (m_y: real) (m_timestamp: int) (movementSpeed: real)
  | ClickData (button: int) (m_x: real) (m_y: real) (m_timestamp: int) (m_pressure: real)
  | ScrollData (deltaX: real) (deltaY: real) (m_timestamp: int)

fun m_eventType :: "mouse_data \<Rightarrow> string" where
  "m_eventType (MoveData _ _ _ _) = ''move''"
| "m_eventType (ClickData _ _ _ _ _) = ''click''"
| "m_eventType (ScrollData _ _ _) = ''scroll''"

record mouse_tracker =
  mouseEvents :: "mouse_data list"
  mouseIsTracking :: bool
  lastMousePosition :: "real \<times> real"
  lastMouseMoveTime :: "int option"
  clickCount :: nat
  totalDistance :: real
  simulatedPressure :: real
  pressureVariation :: real

definition new_MouseTracker :: mouse_tracker where
  "new_MouseTracker =
     \<lparr>mouseEvents = [], mouseIsTracking = False, lastMousePosition = (0, 0),
      lastMouseMoveTime = None, clickCount = 0, totalDistance = 0,
      simulatedPressure = 1, pressureVariation = 0\<rparr>"

definition calculateMovementSpeed :: "real \<Rightarrow> real \<Rightarrow> int \<Rightarrow> mouse_tracker \<Rightarrow> real" where
  "calculateMovementSpeed clientX clientY currentTime t =
     (case lastMouseMoveTime t of
        None \<Rightarrow> 0
      | Some lastTime \<Rightarrow>
          let timeDiff = real_of_int (currentTime - lastTime) / 1000
          in if timeDiff = 0 then 0
             else
               let dx = clientX - fst (lastMousePosition t);
                   dy = clientY - snd (lastMousePosition t);
                   distance = sqrt (dx * dx + dy * dy)
               in distance / timeDiff)"

text \<open>
  The \<^verbatim>\<open>mousemove\<close> listener, up to its call of \<^verbatim>\<open>updateVisualization\<close>, which
  changes the visualization object and is modelled with the application below.
\<close>

definition mousemove :: "real \<Rightarrow> real \<Rightarrow> int \<Rightarrow> mouse_tracker \<Rightarrow> mouse_tracker" where
  "mousemove clientX clientY now t =
     (if \<not> mouseIsTracking t then t
      else
        let movementData =
              MoveData clientX clientY now (calculateMovementSpeed clientX clientY now t);
            t1 = t\<lparr>mouseEvents := mouseEvents t @ [movementData]\<rparr>;
            t2 = (if fst (lastMousePosition t1) \<noteq> 0 \<or> snd (lastMousePosition t1) \<noteq> 0
                  then
                    let dx = clientX - fst (lastMousePosition t1);
                        dy = clientY - snd (lastMousePosition t1);
                        distance = sqrt (dx * dx + dy * dy)
                    in t1\<lparr>totalDistance := totalDistance t1 + distance\<rparr>
                  else t1)
        in t2\<lparr>lastMousePosition := (clientX, clientY), lastMouseMoveTime := Some now\<rparr>)"

text \<open>
  The \<^verbatim>\<open>mousedown\<close> listener.  \<open>currentStress\<close> is
  \<^verbatim>\<open>window.stressApp?.currentStressLevel || 0\<close> and \<open>random\<close> the draw of
  \<^verbatim>\<open>Math.random()\<close>.
\<close>

definition mousedown ::
  "int \<Rightarrow> real \<Rightarrow> real \<Rightarrow> int \<Rightarrow> real \<Rightarrow> real \<Rightarrow> mouse_tracker \<Rightarrow> mouse_tracker" where
  "mousedown btn clientX clientY now currentStress random t =
     (if \<not> mouseIsTracking t then t
      else
        let t1 = t\<lparr>pressureVariation := 0.1 + (currentStress / 4) * 0.3\<rparr>;
            t2 = t1\<lparr>simulatedPressure := 0.8 + random * pressureVariation t1\<rparr>;
            clickData = ClickData btn clientX clientY now (simulatedPressure t2)
        in t2\<lparr>mouseEvents := mouseEvents t2 @ [clickData],
              clickCount := clickCount t2 + 1\<rparr>)"

text \<open>The \<^verbatim>\<open>mouseup\<close> listener stores nothing.\<close>

definition mouseup :: "int \<Rightarrow> real \<Rightarrow> real \<Rightarrow> int \<Rightarrow> mouse_tracker \<Rightarrow> mouse_tracker" where
  "mouseup btn clientX clientY now t = t"

definition wheel :: "real \<Rightarrow> real \<Rightarrow> int \<Rightarrow> mouse_tracker \<Rightarrow> mouse_tracker" where
  "wheel dX dY now t =
     (if \<not> mouseIsTracking t then t
      else
        let wheelData = ScrollData dX dY now
        in t\<lparr>mouseEvents := mouseEvents t @ [wheelData]\<rparr>)"

text \<open>
  The loop \<^verbatim>\<open>for (let i = 2; i < moveEvents.length; i++)\<close> of
  \<^verbatim>\<open>calculateMouseRandomness\<close>: one pass per index, each pushing at most one angle.
\<close>

definition angleChange :: "mouse_data list \<Rightarrow> nat \<Rightarrow> real list" where
  "angleChange moveEvents i =
     (let dx1 = m_x (moveEvents ! (i - 1)) - m_x (moveEvents ! (i - 2));
          dy1 = m_y (moveEvents ! (i - 1)) - m_y (moveEvents ! (i - 2));
          dx2 = m_x (moveEvents ! i) - m_x (moveEvents ! (i - 1));
          dy2 = m_y (moveEvents ! i) - m_y (moveEvents ! (i - 1));
          dot = dx1 * dx2 + dy1 * dy2;
          mag1 = sqrt (dx1 * dx1 + dy1 * dy1);
          mag2 = sqrt (dx2 * dx2 + dy2 * dy2)
      in if mag1 > 0 \<and> mag2 > 0
         then
           let cosAngle = dot / (mag1 * mag2);
               clampedCos = max (- 1) (min 1 cosAngle);
               angle = arccos clampedCos
           in [angle]
         else [])"

definition angleChanges :: "mouse_data list \<Rightarrow> real list" where
  "angleChanges moveEvents = concat (map (angleChange moveEvents) [2..<length moveEvents])"

definition calculateMouseRandomness :: "mouse_tracker \<Rightarrow> real" where
  "calculateMouseRandomness t =
     (if length (mouseEvents t) < 3 then 0.1
      else
        let moveEvents = filter (\<lambda>e. m_eventType e = ''move'') (mouseEvents t)
        in if length moveEvents < 3 then 0.1
           else
             let angles = angleChanges moveEvents
             in if length angles = 0 then 0.1
                else
                  let mean = foldl (\<lambda>a b. a + b) 0 angles / real (length angles);
                      variance = foldl (\<lambda>a b. a + (b - mean) ^ 2) 0 angles
                                   / real (length angles)
                  in min (variance * 10) 1)"

definition calculateClickFrequency :: "mouse_tracker \<Rightarrow> real" where
  "calculateClickFrequency t =
     (if length (mouseEvents t) < 2 then 0
      else
        let clickEvents = filter (\<lambda>e. m_eventType e = ''click'') (mouseEvents t)
        in if length clickEvents < 2 then 0
           else
             let firstClick = m_timestamp (clickEvents ! 0);
                 lastClick = m_timestamp (clickEvents ! (length clickEvents - 1));
                 timeDiff = real_of_int (lastClick - firstClick) / 1000
             in if timeDiff = 0 then 0
                else real (length clickEvents) / timeDiff)"

text \<open>
  In the filter, \<^verbatim>\<open>e.pressure\<close> is read as a truth value: a number counts as true
  unless it is 0.
\<close>

definition calculateAveragePressure :: "mouse_tracker \<Rightarrow> real" where
  "calculateAveragePressure t =
     (let clickEvents =
            filter (\<lambda>e. m_eventType e = ''click'' \<and> m_pressure e \<noteq> 0) (mouseEvents t)
      in if length clickEvents = 0 then 1.0
         else
           let totalPressure = foldl (\<lambda>sum event. sum + m_pressure event) 0 clickEvents
           in totalPressure / real (length clickEvents))"

definition MouseTracker_startTracking :: "mouse_tracker \<Rightarrow> mouse_tracker" where
  "MouseTracker_startTracking t =
     t\<lparr>mouseIsTracking := True, mouseEvents := [], clickCount := 0, totalDistance := 0\<rparr>"

definition MouseTracker_stopTracking :: "mouse_tracker \<Rightarrow> mouse_tracker" where
  "MouseTracker_stopTracking t = t\<lparr>mouseIsTracking := False\<rparr>"

definition MouseTracker_reset :: "mouse_tracker \<Rightarrow> mouse_tracker" where
  "MouseTracker_reset t =
     t\<lparr>mouseEvents := [], clickCount := 0, totalDistance := 0,
       lastMousePosition := (0, 0), lastMouseMoveTime := None\<rparr>"

section \<open>StressVisualization\<close>

text \<open>
  Of the visualization only the heat-map buffer matters here.  A point is
  \<^verbatim>\<open>{x, y, time}\<close>.
\<close>

record mouse_point =
  point_x :: real
  point_y :: real
  point_time :: int

record stress_visualization =
  mousePoints :: "mouse_point list"
  maxPoints :: nat

definition new_StressVisualization :: stress_visualization where
  "new_StressVisualization = \<lparr>mousePoints = [], maxPoints = 1000\<rparr>"

text \<open>
  \<^verbatim>\<open>addMousePoint(x, y)\<close>; \<open>rect_left\<close> and \<open>rect_top\<close> are read from
  \<^verbatim>\<open>getBoundingClientRect()\<close> of the heat-map canvas and \<open>now\<close> from
  \<^verbatim>\<open>Date.now()\<close>; the page is taken to contain that canvas.  \<^verbatim>\<open>shift()\<close> removes
  the first element.  Redrawing the heat map changes no field modelled here.
\<close>

definition addMousePoint ::
  "real \<Rightarrow> real \<Rightarrow> real \<Rightarrow> real \<Rightarrow> int \<Rightarrow> stress_visualization \<Rightarrow> stress_visualization" where
  "addMousePoint x y rect_left rect_top now v =
     (let canvasX = x - rect_left;
          canvasY = y - rect_top;
          v1 = v\<lparr>mousePoints :=
                  mousePoints v @ [\<lparr>point_x = canvasX, point_y = canvasY, point_time = now\<rparr>]\<rparr>
      in if length (mousePoints v1) > maxPoints v1
         then v1\<lparr>mousePoints := tl (mousePoints v1)\<rparr>
         else v1)"

section \<open>StressDetectionApp\<close>

text \<open>
  The application object with its two trackers and the visualization.  The two check
  boxes \<^verbatim>\<open>trackKeyboard\<close> and \<^verbatim>\<open>trackMouse\<close> of the page are state the methods
  read, so they are fields of the model.
\<close>

text \<open>
  Of the web socket \<^verbatim>\<open>this.ws\<close> the model keeps its \<^verbatim>\<open>readyState\<close>.
  \<^verbatim>\<open>send\<close> throws an \<^verbatim>\<open>InvalidStateError\<close> while the socket is connecting; on an
  open socket it sends, on a closing or closed one it drops the data without an error.
\<close>

datatype ready_state = CONNECTING | OPEN | CLOSING | CLOSED

datatype dom_exception = InvalidStateError

definition ws_send :: "ready_state \<Rightarrow> dom_exception + unit" where
  "ws_send s = (if s = CONNECTING then Inl InvalidStateError else Inr ())"

record stress_app =
  ws :: ready_state
  isConnected :: bool
  isMonitoring :: bool
  appSessionStartTime :: "int option"
  currentStressLevel :: real
  stressConfidence :: real
  keyboardTracker :: keyboard_tracker
  mouseTracker :: mouse_tracker
  visualization :: stress_visualization
  trackKeyboard :: bool
  trackMouse :: bool

definition new_StressDetectionApp :: "bool \<Rightarrow> bool \<Rightarrow> stress_app" where
  "new_StressDetectionApp keyboardChecked mouseChecked =
     \<lparr>ws = CONNECTING, isConnected = False,
      isMonitoring = False, appSessionStartTime = None, currentStressLevel = 0,
      stressConfidence = 0, keyboardTracker = new_KeyboardTracker,
      mouseTracker = new_MouseTracker, visualization = new_StressVisualization,
      trackKeyboard = keyboardChecked, trackMouse = mouseChecked\<rparr>"

text \<open>
  \<^verbatim>\<open>initializeWebSocket\<close> makes a new socket, which is connecting; the browser then
  opens it and runs \<^verbatim>\<open>onopen\<close>, or closes it and runs \<^verbatim>\<open>onclose\<close>, whose timer
  calls \<^verbatim>\<open>initializeWebSocket\<close> again five seconds later.
\<close>

definition initializeWebSocket :: "stress_app \<Rightarrow> stress_app" where
  "initializeWebSocket a = a\<lparr>ws := CONNECTING\<rparr>"

definition ws_onopen :: "stress_app \<Rightarrow> stress_app" where
  "ws_onopen a = a\<lparr>ws := OPEN, isConnected := True\<rparr>"

definition ws_closing :: "stress_app \<Rightarrow> stress_app" where
  "ws_closing a = a\<lparr>ws := CLOSING\<rparr>"

definition ws_onclose :: "stress_app \<Rightarrow> stress_app" where
  "ws_onclose a = a\<lparr>ws := CLOSED, isConnected := False\<rparr>"

definition startMonitoring :: "int \<Rightarrow> stress_app \<Rightarrow> stress_app" where
  "startMonitoring now a =
     (if \<not> isMonitoring a
      then
        let a1 = a\<lparr>isMonitoring := True, appSessionStartTime := Some now\<rparr>;
            a2 = (if trackKeyboard a1
                  then a1\<lparr>keyboardTracker :=
                            KeyboardTracker_startTracking now (keyboardTracker a1)\<rparr>
                  else a1)
        in if trackMouse a2
           then a2\<lparr>mouseTracker := MouseTracker_startTracking (mouseTracker a2)\<rparr>
           else a2
      else a)"

definition pauseMonitoring :: "stress_app \<Rightarrow> stress_app" where
  "pauseMonitoring a =
     (if isMonitoring a
      then a\<lparr>isMonitoring := False,
             keyboardTracker := KeyboardTracker_stopTracking (keyboardTracker a),
             mouseTracker := MouseTracker_stopTracking (mouseTracker a)\<rparr>
      else a)"

definition resetSession :: "stress_app \<Rightarrow> stress_app" where
  "resetSession a =
     a\<lparr>isMonitoring := False,
       keyboardTracker :=
         KeyboardTracker_stopTracking (KeyboardTracker_reset (keyboardTracker a)),
       mouseTracker := MouseTracker_stopTracking (MouseTracker_reset (mouseTracker a))\<rparr>"

text \<open>The part of \<^verbatim>\<open>handleStressPrediction\<close> that writes fields of the application.\<close>

definition handleStressPrediction :: "real \<Rightarrow> real \<Rightarrow> stress_app \<Rightarrow> stress_app" where
  "handleStressPrediction level_index confidence a =
     a\<lparr>currentStressLevel := level_index, stressConfidence := confidence\<rparr>"

text \<open>
  The listeners as they run on the page, where \<^verbatim>\<open>window.stressApp\<close> is the
  application.  The \<^verbatim>\<open>mousemove\<close> listener first updates the tracker, then sends the
  movement on the socket, then calls \<^verbatim>\<open>updateVisualization\<close>, which hands the position
  to \<^verbatim>\<open>addMousePoint\<close>.  When the send throws, the listener ends there: the tracker
  keeps the move, the visualization gets no point.  In the other listeners nothing that
  changes a field comes after the send, so they leave the same state whether it throws
  or not.  The \<^verbatim>\<open>mousedown\<close> listener reads the current stress level.
\<close>

record move_input =
  clientX :: real
  clientY :: real
  moveTime :: int
  rectLeft :: real
  rectTop :: real
  pointTime :: int

definition updateVisualization :: "move_input \<Rightarrow> stress_app \<Rightarrow> stress_app" where
  "updateVisualization e a =
     a\<lparr>visualization :=
         addMousePoint (clientX e) (clientY e) (rectLeft e) (rectTop e) (pointTime e)
           (visualization a)\<rparr>"

definition on_mousemove :: "stress_app \<Rightarrow> move_input \<Rightarrow> stress_app" where
  "on_mousemove a e =
     (if \<not> mouseIsTracking (mouseTracker a) then a
      else
        let a1 = a\<lparr>mouseTracker :=
                     mousemove (clientX e) (clientY e) (moveTime e) (mouseTracker a)\<rparr>
        in case ws_send (ws a1) of
             Inl exception \<Rightarrow> a1
           | Inr sent \<Rightarrow> updateVisualization e a1)"

definition on_mousedown :: "int \<Rightarrow> real \<Rightarrow> real \<Rightarrow> int \<Rightarrow> real \<Rightarrow> stress_app \<Rightarrow> stress_app" where
  "on_mousedown btn x y now random a =
     a\<lparr>mouseTracker := mousedown btn x y now (currentStressLevel a) random (mouseTracker a)\<rparr>"

definition on_keydown :: "string \<Rightarrow> string \<Rightarrow> int \<Rightarrow> stress_app \<Rightarrow> stress_app" where
  "on_keydown k c now a = a\<lparr>keyboardTracker := keydown k c now (keyboardTracker a)\<rparr>"

text \<open>The remaining listeners of the page, and the two check boxes' \<^verbatim>\<open>change\<close> listeners.\<close>

definition on_mouseup :: "int \<Rightarrow> real \<Rightarrow> real \<Rightarrow> int \<Rightarrow> stress_app \<Rightarrow> stress_app" where
  "on_mouseup btn x y now a = a\<lparr>mouseTracker := mouseup btn x y now (mouseTracker a)\<rparr>"

definition on_wheel :: "real \<Rightarrow> real \<Rightarrow> int \<Rightarrow> stress_app \<Rightarrow> stress_app" where
  "on_wheel dX dY now a = a\<lparr>mouseTracker := wheel dX dY now (mouseTracker a)\<rparr>"

definition on_keyup :: "string \<Rightarrow> string \<Rightarrow> int \<Rightarrow> stress_app \<Rightarrow> stress_app" where
  "on_keyup k c now a = a\<lparr>keyboardTracker := keyup k c now (keyboardTracker a)\<rparr>"

definition trackKeyboard_change :: "bool \<Rightarrow> int \<Rightarrow> stress_app \<Rightarrow> stress_app" where
  "trackKeyboard_change checked now a =
     (let a1 = a\<lparr>trackKeyboard := checked\<rparr>
      in if \<not> checked
         then a1\<lparr>keyboardTracker := KeyboardTracker_stopTracking (keyboardTracker a1)\<rparr>
         else if isMonitoring a1
         then a1\<lparr>keyboardTracker := KeyboardTracker_startTracking now (keyboardTracker a1)\<rparr>
         else a1)"

definition trackMouse_change :: "bool \<Rightarrow> stress_app \<Rightarrow> stress_app" where
  "trackMouse_change checked a =
     (let a1 = a\<lparr>trackMouse := checked\<rparr>
      in if \<not> checked
         then a1\<lparr>mouseTracker := MouseTracker_stopTracking (mouseTracker a1)\<rparr>
         else if isMonitoring a1
         then a1\<lparr>mouseTracker := MouseTracker_startTracking (mouseTracker a1)\<rparr>
         else a1)"

text \<open>
  What can happen on the page, one constructor for each listener, with the data the
  listener reads; a session is the application after a sequence of such inputs.
\<close>

datatype app_input =
    MouseMoveIn move_input
  | MouseDownIn int real real int real
  | MouseUpIn int real real int
  | WheelIn real real int
  | KeyDownIn string string int
  | KeyUpIn string string int
  | StartClick int
  | PauseClick
  | ResetClick
  | TrackKeyboardChange bool int
  | TrackMouseChange bool
  | PredictionIn real real
  | SocketOpen
  | SocketClosing
  | SocketClose
  | ReconnectTimer

fun app_step :: "stress_app \<Rightarrow> app_input \<Rightarrow> stress_app" where
  "app_step a (MouseMoveIn e) = on_mousemove a e"
| "app_step a (MouseDownIn btn x y now random) = on_mousedown btn x y now random a"
| "app_step a (MouseUpIn btn x y now) = on_mouseup btn x y now a"
| "app_step a (WheelIn dX dY now) = on_wheel dX dY now a"
| "app_step a (KeyDownIn k c now) = on_keydown k c now a"
| "app_step a (KeyUpIn k c now) = on_keyup k c now a"
| "app_step a (StartClick now) = startMonitoring now a"
| "app_step a PauseClick = pauseMonitoring a"
| "app_step a ResetClick = resetSession a"
| "app_step a (TrackKeyboardChange checked now) = trackKeyboard_change checked now a"
| "app_step a (TrackMouseChange checked) = trackMouse_change checked a"
| "app_step a (PredictionIn level_index confidence) = handleStressPrediction level_index confidence a"
| "app_step a SocketOpen = ws_onopen a"
| "app_step a SocketClosing = ws_closing a"
| "app_step a SocketClose = ws_onclose a"
| "app_step a ReconnectTimer = initializeWebSocket a"

definition session :: "bool \<Rightarrow> bool \<Rightarrow> app_input list \<Rightarrow> stress_app" where
  "session kb ms ins = foldl app_step (new_StressDetectionApp kb ms) ins"

section \<open>Notions used to state the properties\<close>

text \<open>The local \<^verbatim>\<open>keyDownEvents\<close> of \<^verbatim>\<open>calculateTypingSpeed\<close>.\<close>

definition keyDownEvents :: "keyboard_tracker \<Rightarrow> key_data list" where
  "keyDownEvents t = filter (\<lambda>e. eventType e = ''keydown'') (keyEvents t)"

text \<open>
  The locals \<^verbatim>\<open>timeDiff\<close> and \<^verbatim>\<open>wpm\<close> of \<^verbatim>\<open>calculateTypingSpeed\<close>: the span in
  seconds between the first and the last key-down event, and the words per minute for a
  number of key-down events and a span, as the program computes them.
\<close>

definition timeSpan :: "keyboard_tracker \<Rightarrow> real" where
  "timeSpan t =
     toDouble (toDouble (real_of_int (timestamp (last (keyDownEvents t))
                                        - timestamp (hd (keyDownEvents t)))) / 1000)"

definition doubleWpm :: "nat \<Rightarrow> real \<Rightarrow> real" where
  "doubleWpm n seconds = toDouble (toDouble (toDouble (real n / seconds) * 60) / 5)"

text \<open>A tracker that has been started and has then seen key-down events at the given times.\<close>

definition pressedAt :: "int list \<Rightarrow> keyboard_tracker" where
  "pressedAt stamps =
     foldl (\<lambda>t now. keydown ''a'' ''KeyA'' now t)
       (KeyboardTracker_startTracking 0 new_KeyboardTracker) stamps"

text \<open>
  The typing speed as the specification words it, computed exactly: 0 for fewer than two
  key-down events or a span of 0, otherwise the number of key-down events divided by the
  span in seconds, times 60, divided by 5, rounded to the nearest integer.
\<close>

definition exactTypingSpeed :: "keyboard_tracker \<Rightarrow> int" where
  "exactTypingSpeed t =
     (let D = keyDownEvents t;
          span = real_of_int (timestamp (last D) - timestamp (hd D)) / 1000
      in if length D < 2 then 0
         else if span = 0 then 0
         else round (real (length D) / span * 60 / 5))"

text \<open>The local \<^verbatim>\<open>moveEvents\<close> of \<^verbatim>\<open>calculateMouseRandomness\<close>.\<close>

definition moveEvents :: "mouse_tracker \<Rightarrow> mouse_data list" where
  "moveEvents t = filter (\<lambda>e. m_eventType e = ''move'') (mouseEvents t)"

definition position :: "mouse_data \<Rightarrow> real \<times> real" where
  "position e = (m_x e, m_y e)"

text \<open>
  A run of the \<^verbatim>\<open>mousemove\<close> listener over a sequence of pointer moves, each given as
  \<open>(clientX, clientY, time)\<close>, and the positions of such a sequence.
\<close>

definition moved :: "mouse_tracker \<Rightarrow> (real \<times> real \<times> int) list \<Rightarrow> mouse_tracker" where
  "moved t ms = foldl (\<lambda>t (x, y, now). mousemove x y now t) t ms"

definition positions :: "(real \<times> real \<times> int) list \<Rightarrow> (real \<times> real) list" where
  "positions ms = map (\<lambda>(x, y, now). (x, y)) ms"

text \<open>
  The Euclidean distance of two positions, and the sum of the distances between each
  pair of consecutive positions of a path, as the specification words it.
\<close>

definition euclid :: "real \<times> real \<Rightarrow> real \<times> real \<Rightarrow> real" where
  "euclid p q =
     sqrt ((fst q - fst p) * (fst q - fst p) + (snd q - snd p) * (snd q - snd p))"

fun consecutiveDistance :: "(real \<times> real) list \<Rightarrow> real" where
  "consecutiveDistance (p # q # ps) = euclid p q + consecutiveDistance (q # ps)"
| "consecutiveDistance ps = 0"

text \<open>The same sum, leaving out every pair whose earlier position is the origin.\<close>

fun countedDistance :: "(real \<times> real) list \<Rightarrow> real" where
  "countedDistance (p # q # ps) =
     (if p = (0, 0) then 0 else euclid p q) + countedDistance (q # ps)"
| "countedDistance ps = 0"

text \<open>
  The angles between consecutive displacement vectors of a path, as the specification
  words them: one angle for each three consecutive positions, unless one of the two
  displacements has length 0.
\<close>

fun turningAngles :: "(real \<times> real) list \<Rightarrow> real list" where
  "turningAngles (p # q # r # ps) =
     (let v1 = (fst q - fst p, snd q - snd p);
          v2 = (fst r - fst q, snd r - snd q);
          dot = fst v1 * fst v2 + snd v1 * snd v2;
          mag1 = sqrt (fst v1 * fst v1 + snd v1 * snd v1);
          mag2 = sqrt (fst v2 * fst v2 + snd v2 * snd v2)
      in if mag1 > 0 \<and> mag2 > 0
         then [arccos (max (- 1) (min 1 (dot / (mag1 * mag2))))]
         else [])
     @ turningAngles (q # r # ps)"
| "turningAngles [p, q] = []"
| "turningAngles [p] = []"
| "turningAngles [] = []"

text \<open>The population variance of a list of numbers: the mean squared deviation from the mean.\<close>

definition populationVariance :: "real list \<Rightarrow> real" where
  "populationVariance xs =
     (let mean = sum_list xs / real (length xs)
      in sum_list (map (\<lambda>x. (x - mean) ^ 2) xs) / real (length xs))"

text \<open>
  The pressure fields of the click events in the buffer, and those among them that
  count as a pressure in \<^verbatim>\<open>calculateAveragePressure\<close>.
\<close>

definition clickPressures :: "mouse_tracker \<Rightarrow> real list" where
  "clickPressures t =
     map m_pressure (filter (\<lambda>e. m_eventType e = ''click'') (mouseEvents t))"

definition carriedPressures :: "mouse_tracker \<Rightarrow> real list" where
  "carriedPressures t = filter (\<lambda>p. p \<noteq> 0) (clickPressures t)"

text \<open>The heat-map point that \<^verbatim>\<open>addMousePoint\<close> stores for a pointer move.\<close>

definition pointOf :: "move_input \<Rightarrow> mouse_point" where
  "pointOf e =
     \<lparr>point_x = clientX e - rectLeft e, point_y = clientY e - rectTop e,
      point_time = pointTime e\<rparr>"

text \<open>A pointer move to \<open>(1, 1)\<close> over a canvas at the origin, used in examples.\<close>

definition sampleMove :: move_input where
  "sampleMove =
     \<lparr>clientX = 1, clientY = 1, moveTime = 0, rectLeft = 0, rectTop = 0, pointTime = 0\<rparr>"

text \<open>
  The heat-map points that the \<^verbatim>\<open>mousemove\<close> listener hands to \<^verbatim>\<open>addMousePoint\<close>
  in a run of inputs: a move reaches the visualization when the mouse tracker is
  tracking and the send on the socket does not throw.
\<close>

fun recordedPoints :: "stress_app \<Rightarrow> app_input list \<Rightarrow> mouse_point list" where
  "recordedPoints a [] = []"
| "recordedPoints a (MouseMoveIn e # ins) =
     (if mouseIsTracking (mouseTracker a) \<and> ws a \<noteq> CONNECTING then [pointOf e] else [])
     @ recordedPoints (app_step a (MouseMoveIn e)) ins"
| "recordedPoints a (i # ins) = recordedPoints (app_step a i) ins"

text \<open>
  Inputs within the interface's ranges: \<^verbatim>\<open>Math.random()\<close> draws from \<open>[0, 1)\<close> and
  the classifier reports a level index from 0 to 4.
\<close>

fun wellFormed :: "app_input \<Rightarrow> bool" where
  "wellFormed (MouseDownIn btn x y now random) = (0 \<le> random \<and> random < 1)"
| "wellFormed (PredictionIn level_index confidence) = (0 \<le> level_index \<and> level_index \<le> 4)"
| "wellFormed i = True"

text \<open>
  Trackers used in examples: started, then three pointer moves along a straight line;
  three pointer moves that stay at one position; a straight line that ends in a right
  turn; two moves at one position followed by a move away.
\<close>

definition cornerPath :: mouse_tracker where
  "cornerPath =
     moved (MouseTracker_startTracking new_MouseTracker)
       [(0, 0, 0), (10, 0, 10), (20, 0, 20), (20, 10, 30)]"

definition stopAndGo :: mouse_tracker where
  "stopAndGo =
     moved (MouseTracker_startTracking new_MouseTracker)
       [(1, 1, 0), (1, 1, 10), (4, 5, 20)]"

definition straightPath :: mouse_tracker where
  "straightPath =
     moved (MouseTracker_startTracking new_MouseTracker)
       [(0, 0, 0), (10, 0, 10), (20, 0, 20)]"

definition restingPath :: mouse_tracker where
  "restingPath =
     moved (MouseTracker_startTracking new_MouseTracker)
       [(1, 1, 0), (1, 1, 10), (1, 1, 20)]"

text \<open>
  A session used in examples: start, a click at stress level 0 with random draw 0, a
  prediction of level 4, a click with random draw \<open>1/2\<close>.
\<close>

definition clickingSession :: "app_input list" where
  "clickingSession =
     [StartClick 0, MouseDownIn 0 5 5 10 0, PredictionIn 4 0.9, MouseDownIn 0 5 5 20 (1 / 2)]"

text \<open>
  An application used in examples: both check boxes ticked, monitoring started, then one
  key press and one pointer move.
\<close>

definition typedAndMoved :: stress_app where
  "typedAndMoved =
     on_mousemove
       (on_keydown ''a'' ''KeyA'' 1 (startMonitoring 0 (new_StressDetectionApp True True)))
       sampleMove"

section \<open>Rounding to a double\<close>

lemma binade_bounds:
  assumes "x \<noteq> 0"
  shows "2 powi (binade x) \<le> \<bar>x\<bar>" "\<bar>x\<bar> < 2 powi (binade x + 1)"
proof -
  have pos: "0 < \<bar>x\<bar>" using assms by simp
  have "2 powr real_of_int (binade x) \<le> \<bar>x\<bar> \<and> \<bar>x\<bar> < 2 powr (real_of_int (binade x) + 1)"
    using floor_log_eq_powr_iff [OF pos, of 2 "binade x"] by (simp add: binade_def)
  moreover have "real_of_int (binade x) + 1 = real_of_int (binade x + 1)" by simp
  ultimately have "2 powr real_of_int (binade x) \<le> \<bar>x\<bar>"
    and "\<bar>x\<bar> < 2 powr real_of_int (binade x + 1)" by (simp_all only:)
  then show "2 powi (binade x) \<le> \<bar>x\<bar>" "\<bar>x\<bar> < 2 powi (binade x + 1)"
    by (simp_all only: powr_real_of_int' [of "2::real", simplified])
qed

lemma binade_eq:
  assumes "2 powi k \<le> \<bar>x\<bar>" "\<bar>x\<bar> < 2 powi (k + 1)"
  shows "binade x = k"
proof -
  have "(0::real) < 2 powi k" by simp
  with assms(1) have pos: "0 < \<bar>x\<bar>" by linarith
  have "2 powr real_of_int k \<le> \<bar>x\<bar>" "\<bar>x\<bar> < 2 powr real_of_int (k + 1)"
    using assms by (simp_all only: powr_real_of_int' [of "2::real", simplified])
  then have "2 powr real_of_int k \<le> \<bar>x\<bar> \<and> \<bar>x\<bar> < 2 powr (real_of_int k + 1)"
    by simp
  then show ?thesis
    using floor_log_eq_powr_iff [OF pos, of 2 k] by (simp add: binade_def)
qed

lemma roundTiesToEven_of_int [simp]: "roundTiesToEven (real_of_int n) = n"
  by (simp add: roundTiesToEven_def)

lemma roundTiesToEven_mono:
  assumes "y \<le> z"
  shows "roundTiesToEven y \<le> roundTiesToEven z"
proof -
  have fl: "\<lfloor>y\<rfloor> \<le> \<lfloor>z\<rfloor>" using assms by (rule floor_mono)
  have lo: "\<lfloor>u\<rfloor> \<le> roundTiesToEven u" and hi: "roundTiesToEven u \<le> \<lfloor>u\<rfloor> + 1" for u
    by (simp_all add: roundTiesToEven_def Let_def)
  show ?thesis
  proof (cases "\<lfloor>y\<rfloor> = \<lfloor>z\<rfloor>")
    case True
    then show ?thesis
      using assms by (auto simp add: roundTiesToEven_def Let_def)
  next
    case False
    with fl have "\<lfloor>y\<rfloor> + 1 \<le> \<lfloor>z\<rfloor>" by simp
    with hi [of y] lo [of z] show ?thesis by linarith
  qed
qed

lemma quantum_pos [simp]: "0 < quantum x"
  by (simp add: quantum_def)

lemma quantum_nonneg [simp]: "0 \<le> quantum x"
  by (simp add: quantum_def)

lemma scaled_bounds:
  assumes "0 < x"
  shows "2 ^ 52 \<le> x / quantum x" "x / quantum x < 2 ^ 53"
proof -
  have x: "x \<noteq> 0" "\<bar>x\<bar> = x" using assms by simp_all
  have q: "2 powi (binade x) = quantum x * 2 ^ 52"
    by (simp add: quantum_def power_int_diff)
  have q2: "2 powi (binade x + 1) = quantum x * 2 ^ 53"
    by (simp add: quantum_def power_int_diff power_int_add)
  have "quantum x * 2 ^ 52 \<le> x"
    using binade_bounds(1) [OF x(1)] unfolding x(2) q .
  then show "2 ^ 52 \<le> x / quantum x"
    by (simp add: pos_le_divide_eq mult.commute)
  have "x < quantum x * 2 ^ 53"
    using binade_bounds(2) [OF x(1)] unfolding x(2) q2 .
  then show "x / quantum x < 2 ^ 53"
    by (simp add: pos_divide_less_eq mult.commute)
qed

lemma toDouble_0 [simp]: "toDouble 0 = 0"
  by (simp add: toDouble_def)

lemma toDouble_pos_bounds:
  assumes "0 < x"
  shows "2 powi (binade x) \<le> toDouble x" "toDouble x \<le> 2 powi (binade x + 1)"
proof -
  have x: "x \<noteq> 0" using assms by simp
  have "roundTiesToEven (real_of_int (2 ^ 52)) \<le> roundTiesToEven (x / quantum x)"
    using scaled_bounds(1) [OF assms] by (intro roundTiesToEven_mono) simp
  then have lo: "(2::real) ^ 52 \<le> real_of_int (roundTiesToEven (x / quantum x))"
    unfolding roundTiesToEven_of_int by (metis of_int_le_iff of_int_numeral of_int_power)
  have "roundTiesToEven (x / quantum x) \<le> roundTiesToEven (real_of_int (2 ^ 53))"
    using scaled_bounds(2) [OF assms] by (intro roundTiesToEven_mono) simp
  then have hi: "real_of_int (roundTiesToEven (x / quantum x)) \<le> (2::real) ^ 53"
    unfolding roundTiesToEven_of_int by (metis of_int_le_iff of_int_numeral of_int_power)
  have q: "2 ^ 52 * quantum x = 2 powi (binade x)"
    by (simp add: quantum_def power_int_diff)
  have q2: "2 ^ 53 * quantum x = 2 powi (binade x + 1)"
    by (simp add: quantum_def power_int_diff power_int_add)
  have "2 ^ 52 * quantum x \<le> real_of_int (roundTiesToEven (x / quantum x)) * quantum x"
    using lo by (intro mult_right_mono) simp_all
  then show "2 powi (binade x) \<le> toDouble x"
    using x by (simp only: q toDouble_def if_False)
  have "real_of_int (roundTiesToEven (x / quantum x)) * quantum x \<le> 2 ^ 53 * quantum x"
    using hi by (intro mult_right_mono) simp_all
  then show "toDouble x \<le> 2 powi (binade x + 1)"
    using x by (simp only: q2 toDouble_def if_False)
qed

lemma toDouble_pos: "0 < x \<Longrightarrow> 0 < toDouble x"
  using toDouble_pos_bounds(1) [of x] zero_less_power_int [of "2::real" "binade x"]
  by linarith

lemma toDouble_nonneg: "0 \<le> x \<Longrightarrow> 0 \<le> toDouble x"
  using toDouble_pos [of x] by (cases "x = 0") (simp_all add: less_eq_real_def)

lemma binade_mono:
  assumes "0 < x" "x \<le> y"
  shows "binade x \<le> binade y"
  unfolding binade_def using assms by (intro floor_mono) simp

lemma toDouble_mono:
  assumes "0 \<le> x" "x \<le> y"
  shows "toDouble x \<le> toDouble y"
proof (cases "x = 0")
  case True
  then show ?thesis using assms toDouble_nonneg [of y] by simp
next
  case False
  then have x: "0 < x" and y: "0 < y" using assms by simp_all
  show ?thesis
  proof (cases "binade x = binade y")
    case True
    then have q: "quantum x = quantum y" by (simp add: quantum_def)
    have "x / quantum y \<le> y / quantum y"
      using assms(2) by (simp add: divide_right_mono)
    then have "roundTiesToEven (x / quantum y) \<le> roundTiesToEven (y / quantum y)"
      by (rule roundTiesToEven_mono)
    then have "real_of_int (roundTiesToEven (x / quantum y)) * quantum y
        \<le> real_of_int (roundTiesToEven (y / quantum y)) * quantum y"
      by (intro mult_right_mono) simp_all
    then show ?thesis
      using x y by (simp add: toDouble_def q)
  next
    case False
    with binade_mono [OF x assms(2)] have "binade x + 1 \<le> binade y" by simp
    then have "(2::real) powi (binade x + 1) \<le> 2 powi (binade y)"
      by (intro power_int_increasing) simp_all
    with toDouble_pos_bounds(2) [OF x] toDouble_pos_bounds(1) [OF y]
    show ?thesis by linarith
  qed
qed

lemma toDouble_eval:
  assumes "2 powi k \<le> \<bar>x\<bar>" "\<bar>x\<bar> < 2 powi (k + 1)"
  shows "toDouble x = real_of_int (roundTiesToEven (x / 2 powi (k - 52))) * 2 powi (k - 52)"
proof -
  have "(0::real) < 2 powi k" by simp
  with assms(1) have "0 < \<bar>x\<bar>" by linarith
  then have "x \<noteq> 0" by simp
  then show ?thesis
    by (simp add: toDouble_def quantum_def binade_eq [OF assms])
qed

lemma roundTiesToEven_minus: "roundTiesToEven (- y) = - roundTiesToEven y"
proof (cases "y = real_of_int \<lfloor>y\<rfloor>")
  case True
  then obtain n where "y = real_of_int n" ..
  then show ?thesis by (simp flip: of_int_minus)
next
  case False
  then have fl: "\<lfloor>- y\<rfloor> = - \<lfloor>y\<rfloor> - 1"
    by (smt (verit) ceiling_altdef ceiling_def of_int_floor_cancel)
  have r: "0 < y - real_of_int \<lfloor>y\<rfloor>" "y - real_of_int \<lfloor>y\<rfloor> < 1"
    using False by linarith+
  show ?thesis
    using r by (auto simp add: roundTiesToEven_def Let_def fl)
qed

lemma toDouble_minus: "toDouble (- x) = - toDouble x"
  by (simp add: toDouble_def quantum_def binade_def roundTiesToEven_minus)

lemma toDouble_eq_0_iff: "toDouble x = 0 \<longleftrightarrow> x = 0"
proof (cases "0 < x")
  case True
  then show ?thesis using toDouble_pos [of x] by simp
next
  case False
  show ?thesis
  proof (cases "x = 0")
    case True
    then show ?thesis by simp
  next
    case ne: False
    with False have "0 < - x" by simp
    then have "0 < toDouble (- x)" by (rule toDouble_pos)
    then show ?thesis using ne by (simp add: toDouble_minus)
  qed
qed

lemma toDouble_of_int_small:
  assumes "\<bar>n\<bar> < 2 ^ 53"
  shows "toDouble (real_of_int n) = real_of_int n"
proof (cases "n = 0")
  case True
  then show ?thesis by simp
next
  case False
  then have x: "real_of_int n \<noteq> 0" by simp
  let ?k = "binade (real_of_int n)"
  have up: "\<bar>real_of_int n\<bar> < 2 powi 53"
    using assms by (simp flip: of_int_abs add: of_int_less_numeral_power_cancel_iff)
  have "2 powi ?k \<le> \<bar>real_of_int n\<bar>" by (rule binade_bounds(1) [OF x])
  with up have "(2::real) powi ?k < 2 powi 53" by linarith
  then have k: "?k \<le> 52"
    by (smt (verit) power_int_increasing)
  define m where "m = nat (52 - ?k)"
  have q: "quantum (real_of_int n) = 1 / 2 ^ m"
    using k by (simp add: quantum_def m_def power_int_def inverse_eq_divide power_one_over)
  have "real_of_int n / quantum (real_of_int n) = real_of_int (n * 2 ^ m)"
    by (simp add: q)
  then have "roundTiesToEven (real_of_int n / quantum (real_of_int n)) = n * 2 ^ m"
    by (simp only: roundTiesToEven_of_int)
  then show ?thesis
    using x by (simp add: toDouble_def) (simp add: q)
qed

lemma toDouble_abs: "toDouble \<bar>x\<bar> = \<bar>toDouble x\<bar>"
proof (cases "0 \<le> x")
  case True
  then show ?thesis using toDouble_nonneg [of x] by simp
next
  case False
  then have "0 \<le> toDouble (- x)" by (intro toDouble_nonneg) simp
  then show ?thesis using False by (simp add: toDouble_minus)
qed

lemma toDouble_power_of_two: "toDouble (2 powi k) = 2 powi k"
proof -
  have b: "binade (2 powi k) = k"
    by (rule binade_eq) (simp_all add: power_int_add)
  have "(2::real) powi k / 2 powi (k - 52) = real_of_int (2 ^ 52)"
    by (simp add: power_int_diff)
  then have "roundTiesToEven (2 powi k / 2 powi (k - 52)) = 2 ^ 52"
    by (simp only: roundTiesToEven_of_int)
  then show ?thesis
    by (simp add: toDouble_def quantum_def b power_int_diff)
qed

lemma toDouble_between:
  assumes "2 powi a \<le> \<bar>x\<bar>" "\<bar>x\<bar> \<le> 2 powi b"
  shows "2 powi a \<le> \<bar>toDouble x\<bar>" "\<bar>toDouble x\<bar> \<le> 2 powi b"
proof -
  have "toDouble (2 powi a) \<le> toDouble \<bar>x\<bar>"
    using assms(1) by (intro toDouble_mono) simp_all
  then show "2 powi a \<le> \<bar>toDouble x\<bar>"
    by (simp only: toDouble_power_of_two toDouble_abs)
  have "toDouble \<bar>x\<bar> \<le> toDouble (2 powi b)"
    using assms(2) by (intro toDouble_mono) simp_all
  then show "\<bar>toDouble x\<bar> \<le> 2 powi b"
    by (simp only: toDouble_power_of_two toDouble_abs)
qed

lemma normal_between:
  assumes "2 powi a \<le> \<bar>x\<bar>" "\<bar>x\<bar> \<le> 2 powi b" "- 1022 \<le> a" "b < 1024"
  shows "normalDouble x"
proof -
  have "(2::real) powi (- 1022) \<le> 2 powi a"
    using assms(3) by (intro power_int_increasing) simp_all
  moreover have "(2::real) powi b < 2 powi 1024"
    using assms(4) by (intro power_int_strict_increasing) simp_all
  ultimately show ?thesis
    unfolding normalDouble_def using assms(1,2) by linarith
qed


section \<open>Typing speed\<close>

lemma typing_speed_keyDownEvents:
  "calculateTypingSpeed t =
     (if length (keyDownEvents t) < 2 then 0
      else if timeSpan t = 0 then 0
      else round (doubleWpm (length (keyDownEvents t)) (timeSpan t)))"
proof (cases "length (keyDownEvents t) < 2")
  case True
  then show ?thesis
    by (simp add: calculateTypingSpeed_def keyDownEvents_def Let_def)
next
  case False
  then have ne: "keyDownEvents t \<noteq> []" by auto
  have "length (keyDownEvents t) \<le> length (keyEvents t)"
    by (simp add: keyDownEvents_def)
  with False have long: "\<not> length (keyEvents t) < 2" by linarith
  have nth: "keyDownEvents t ! 0 = hd (keyDownEvents t)"
    "keyDownEvents t ! (length (keyDownEvents t) - 1) = last (keyDownEvents t)"
    using ne by (simp_all add: hd_conv_nth last_conv_nth)
  have "calculateTypingSpeed t =
      (let timeDiff = toDouble (toDouble (real_of_int
              (timestamp (keyDownEvents t ! (length (keyDownEvents t) - 1))
                - timestamp (keyDownEvents t ! 0))) / 1000)
       in if timeDiff = 0 then 0
          else round (toDouble (toDouble (toDouble
                 (real (length (keyDownEvents t)) / timeDiff) * 60) / 5)))"
    using False long
    by (simp only: calculateTypingSpeed_def keyDownEvents_def [symmetric] Let_def if_False)
  then show ?thesis
    using False by (simp only: nth timeSpan_def doubleWpm_def Let_def if_False)
qed

lemma timeSpan_zero_iff:
  "timeSpan t = 0 \<longleftrightarrow> timestamp (last (keyDownEvents t)) = timestamp (hd (keyDownEvents t))"
  by (simp add: timeSpan_def toDouble_eq_0_iff)

lemma timeSpan_nonneg:
  assumes "timestamp (hd (keyDownEvents t)) \<le> timestamp (last (keyDownEvents t))"
  shows "0 \<le> timeSpan t"
proof -
  have "0 \<le> real_of_int (timestamp (last (keyDownEvents t)) - timestamp (hd (keyDownEvents t)))"
    using assms by simp
  then have "0 \<le> toDouble (real_of_int
      (timestamp (last (keyDownEvents t)) - timestamp (hd (keyDownEvents t)))) / 1000"
    by (intro divide_nonneg_nonneg toDouble_nonneg) simp_all
  then show ?thesis
    unfolding timeSpan_def by (rule toDouble_nonneg)
qed

lemma doubleWpm_nonneg:
  assumes "0 \<le> seconds"
  shows "0 \<le> doubleWpm n seconds"
proof -
  have "0 \<le> real n / seconds" using assms by simp
  then have "0 \<le> toDouble (real n / seconds) * 60"
    by (intro mult_nonneg_nonneg toDouble_nonneg) simp_all
  then have "0 \<le> toDouble (toDouble (real n / seconds) * 60) / 5"
    by (intro divide_nonneg_nonneg toDouble_nonneg) simp_all
  then show ?thesis
    unfolding doubleWpm_def by (rule toDouble_nonneg)
qed

lemma doubleWpm_mono:
  assumes "0 < seconds" "n \<le> m"
  shows "doubleWpm n seconds \<le> doubleWpm m seconds"
proof -
  have q: "0 \<le> real n / seconds" "real n / seconds \<le> real m / seconds"
    using assms by (simp_all add: divide_right_mono)
  have d1: "0 \<le> toDouble (real n / seconds)" "toDouble (real n / seconds) \<le> toDouble (real m / seconds)"
    using q by (simp_all add: toDouble_nonneg toDouble_mono)
  have m1: "0 \<le> toDouble (real n / seconds) * 60"
    "toDouble (real n / seconds) * 60 \<le> toDouble (real m / seconds) * 60"
    using d1 by simp_all
  have d2: "0 \<le> toDouble (toDouble (real n / seconds) * 60)"
    "toDouble (toDouble (real n / seconds) * 60) \<le> toDouble (toDouble (real m / seconds) * 60)"
    using m1 by (simp_all only: toDouble_nonneg toDouble_mono)
  have m2: "0 \<le> toDouble (toDouble (real n / seconds) * 60) / 5"
    "toDouble (toDouble (real n / seconds) * 60) / 5 \<le> toDouble (toDouble (real m / seconds) * 60) / 5"
    using d2 by simp_all
  show ?thesis
    unfolding doubleWpm_def using m2 by (rule toDouble_mono)
qed

lemma typing_speed_nonneg:
  assumes "keyDownEvents t \<noteq> []"
    and "timestamp (hd (keyDownEvents t)) \<le> timestamp (last (keyDownEvents t))"
  shows "0 \<le> calculateTypingSpeed t"
proof -
  have "0 \<le> doubleWpm (length (keyDownEvents t)) (timeSpan t)"
    using timeSpan_nonneg [OF assms(2)] by (rule doubleWpm_nonneg)
  then have "0 \<le> round (doubleWpm (length (keyDownEvents t)) (timeSpan t))"
    by (metis round_mono round_0)
  then show ?thesis
    by (simp only: typing_speed_keyDownEvents split: if_splits) simp
qed

text \<open>
  Every number that \<^verbatim>\<open>calculateTypingSpeed\<close> rounds lies in the range of the normal
  doubles, for every buffer the program can hold: an array has fewer than \<^verbatim>\<open>2^32\<close>
  elements, and two time values of \<^verbatim>\<open>Date\<close> differ by at most \<^verbatim>\<open>2^54\<close>
  milliseconds.  So no operation overflows or underflows.
\<close>

lemma typing_speed_operands_normal:
  fixes d :: int and n :: nat
  assumes d: "d \<noteq> 0" "\<bar>d\<bar> \<le> 2 ^ 54" and n: "2 \<le> n" "n < 2 ^ 32"
  shows "normalDouble (real_of_int d)"
    and "normalDouble (toDouble (real_of_int d) / 1000)"
    and "normalDouble (real n / toDouble (toDouble (real_of_int d) / 1000))"
    and "normalDouble (toDouble (real n / toDouble (toDouble (real_of_int d) / 1000)) * 60)"
    and "normalDouble
           (toDouble (toDouble (real n / toDouble (toDouble (real_of_int d) / 1000)) * 60) / 5)"
proof -
  define y1 where "y1 = toDouble (real_of_int d)"
  define s where "s = toDouble (y1 / 1000)"
  define y3 where "y3 = toDouble (real n / s)"
  define y4 where "y4 = toDouble (y3 * 60)"
  have "1 \<le> \<bar>d\<bar>" using d(1) by simp
  then have "1 \<le> \<bar>real_of_int d\<bar>" by (simp flip: of_int_abs)
  then have x1: "2 powi 0 \<le> \<bar>real_of_int d\<bar>" by simp
  have "real_of_int \<bar>d\<bar> \<le> real_of_int (2 ^ 54)" using d(2) by (simp only: of_int_le_iff)
  then have x1': "\<bar>real_of_int d\<bar> \<le> 2 powi 54" by simp
  show "normalDouble (real_of_int d)"
    using x1 x1' by (rule normal_between) simp_all
  have y1: "2 powi 0 \<le> \<bar>y1\<bar>" "\<bar>y1\<bar> \<le> 2 powi 54"
    unfolding y1_def using x1 x1' by (rule toDouble_between)+
  have x2: "2 powi (- 10) \<le> \<bar>y1 / 1000\<bar>" "\<bar>y1 / 1000\<bar> \<le> 2 powi 45"
    using y1 by simp_all
  show "normalDouble (toDouble (real_of_int d) / 1000)"
    using x2 unfolding y1_def by (rule normal_between) simp_all
  have s: "2 powi (- 10) \<le> \<bar>s\<bar>" "\<bar>s\<bar> \<le> 2 powi 45"
    unfolding s_def using x2 by (rule toDouble_between)+
  then have s0: "0 < \<bar>s\<bar>" "1 / 1024 \<le> \<bar>s\<bar>" "\<bar>s\<bar> \<le> 2 ^ 45" by simp_all
  have nn: "2 \<le> real n" "real n \<le> 2 ^ 32"
    using n by (simp_all add: of_nat_le_numeral_power_cancel_iff less_imp_le)
  have lo3: "2 / 2 ^ 45 \<le> real n / \<bar>s\<bar>"
    using nn(1) s0 by (intro frac_le) simp_all
  have hi3: "real n / \<bar>s\<bar> \<le> 2 ^ 32 / (1 / 1024)"
    using nn(2) s0 by (intro frac_le) simp_all
  have x3: "2 powi (- 44) \<le> \<bar>real n / s\<bar>" "\<bar>real n / s\<bar> \<le> 2 powi 42"
    using lo3 hi3 by simp_all
  show "normalDouble (real n / toDouble (toDouble (real_of_int d) / 1000))"
    using x3 unfolding s_def y1_def by (rule normal_between) simp_all
  have y3: "2 powi (- 44) \<le> \<bar>y3\<bar>" "\<bar>y3\<bar> \<le> 2 powi 42"
    unfolding y3_def using x3 by (rule toDouble_between)+
  have x4: "2 powi (- 44) \<le> \<bar>y3 * 60\<bar>" "\<bar>y3 * 60\<bar> \<le> 2 powi 48"
    using y3 by (simp_all add: abs_mult)
  show "normalDouble (toDouble (real n / toDouble (toDouble (real_of_int d) / 1000)) * 60)"
    using x4 unfolding y3_def s_def y1_def by (rule normal_between) simp_all
  have y4: "2 powi (- 44) \<le> \<bar>y4\<bar>" "\<bar>y4\<bar> \<le> 2 powi 48"
    unfolding y4_def using x4 by (rule toDouble_between)+
  have x5: "2 powi (- 47) \<le> \<bar>y4 / 5\<bar>" "\<bar>y4 / 5\<bar> \<le> 2 powi 48"
    using y4 by simp_all
  show "normalDouble
      (toDouble (toDouble (real n / toDouble (toDouble (real_of_int d) / 1000)) * 60) / 5)"
    using x5 unfolding y4_def y3_def s_def y1_def by (rule normal_between) simp_all
qed

text \<open>Trackers that have only seen key presses: their key-down events and timestamps.\<close>

lemma pressedAt_tracking: "isTracking (pressedAt stamps)"
  by (induction stamps rule: rev_induct)
    (simp_all add: pressedAt_def KeyboardTracker_startTracking_def keydown_def Let_def)

lemma pressedAt_snoc:
  "pressedAt (stamps @ [now]) = keydown ''a'' ''KeyA'' now (pressedAt stamps)"
  by (simp add: pressedAt_def)

lemma pressedAt_events:
  "map timestamp (keyEvents (pressedAt stamps)) = stamps
   \<and> (\<forall>e \<in> set (keyEvents (pressedAt stamps)). eventType e = ''keydown'')"
proof (induction stamps rule: rev_induct)
  case Nil
  then show ?case
    by (simp add: pressedAt_def KeyboardTracker_startTracking_def new_KeyboardTracker_def)
next
  case (snoc now stamps)
  then show ?case
    using pressedAt_tracking [of stamps]
    by (auto simp add: pressedAt_snoc keydown_def Let_def)
qed

lemma pressedAt_first_last:
  assumes "stamps \<noteq> []"
  shows "timestamp (hd (keyDownEvents (pressedAt stamps))) = hd stamps"
    and "timestamp (last (keyDownEvents (pressedAt stamps))) = last stamps"
    and "length (keyDownEvents (pressedAt stamps)) = length stamps"
proof -
  let ?D = "keyDownEvents (pressedAt stamps)"
  have "?D = keyEvents (pressedAt stamps)"
    using pressedAt_events [of stamps] by (simp add: keyDownEvents_def)
  then have m: "map timestamp ?D = stamps"
    using pressedAt_events [of stamps] by simp
  then have ne: "?D \<noteq> []" using assms by auto
  show "timestamp (hd ?D) = hd stamps"
    using m ne by (metis hd_map)
  show "timestamp (last ?D) = last stamps"
    using m ne by (metis last_map)
  show "length ?D = length stamps"
    using m by (metis length_map)
qed

lemma typing_speed_pressedAt:
  assumes "2 \<le> length stamps" "last stamps \<noteq> hd stamps"
  shows "calculateTypingSpeed (pressedAt stamps) =
    round (doubleWpm (length stamps)
             (toDouble (toDouble (real_of_int (last stamps - hd stamps)) / 1000)))"
proof -
  have ne: "stamps \<noteq> []" using assms(1) by auto
  note fl = pressedAt_first_last [OF ne]
  have span: "timeSpan (pressedAt stamps)
      = toDouble (toDouble (real_of_int (last stamps - hd stamps)) / 1000)"
    by (simp only: timeSpan_def fl)
  have "timeSpan (pressedAt stamps) \<noteq> 0"
    using assms(2) by (simp only: timeSpan_zero_iff fl) simp
  then show ?thesis
    using assms(1) by (simp only: typing_speed_keyDownEvents fl span [symmetric]) simp
qed

text \<open>The doubles that the program computes in two examples.\<close>

lemma toDouble_800: "toDouble (800 / 1000) = 7205759403792794 / 2 ^ 53"
  using toDouble_eval [of "- 1" "800 / 1000"]
  by (simp add: roundTiesToEven_def power_int_minus_divide)

lemma toDouble_625: "toDouble (5 / (7205759403792794 / 2 ^ 53)) = 25 / 4"
  using toDouble_eval [of 2 "5 / (7205759403792794 / 2 ^ 53)"]
  by (simp add: roundTiesToEven_def power_int_minus_divide)

lemma toDouble_375: "toDouble (25 / 4 * 60) = 375"
  using toDouble_of_int_small [of 375] by simp

lemma toDouble_75: "toDouble (375 / 5) = 75"
  using toDouble_of_int_small [of 75] by simp

lemma toDouble_2240: "toDouble (2240 / 1000) = 5044031582654956 / 2 ^ 51"
  using toDouble_eval [of 1 "2240 / 1000"]
  by (simp add: roundTiesToEven_def power_int_minus_divide)

lemma toDouble_3125: "toDouble (7 / (5044031582654956 / 2 ^ 51)) = 7036874417766399 / 2 ^ 51"
  using toDouble_eval [of 1 "7 / (5044031582654956 / 2 ^ 51)"]
  by (simp add: roundTiesToEven_def power_int_minus_divide)

lemma toDouble_1875: "toDouble (7036874417766399 / 2 ^ 51 * 60) = 6597069766655999 / 2 ^ 45"
  using toDouble_eval [of 7 "7036874417766399 / 2 ^ 51 * 60"]
  by (simp add: roundTiesToEven_def power_int_minus_divide)

lemma toDouble_37: "toDouble (6597069766655999 / 2 ^ 45 / 5) = 5277655813324799 / 2 ^ 47"
  using toDouble_eval [of 5 "6597069766655999 / 2 ^ 45 / 5"]
  by (simp add: roundTiesToEven_def power_int_minus_divide)

lemma toDouble_integers:
  "toDouble (real_of_int 800) = 800" "toDouble (real_of_int 2240) = 2240"
  "toDouble (real_of_int 1000) = 1000"
  using toDouble_of_int_small [of 800] toDouble_of_int_small [of 2240]
    toDouble_of_int_small [of 1000]
  by simp_all

lemma typing_speed_five: "calculateTypingSpeed (pressedAt [0, 200, 400, 600, 800]) = 75"
proof -
  have "calculateTypingSpeed (pressedAt [0, 200, 400, 600, 800])
      = round (doubleWpm 5 (toDouble (toDouble (real_of_int 800) / 1000)))"
    using typing_speed_pressedAt [of "[0, 200, 400, 600, 800]"] by (simp add: eval_nat_numeral)
  also have "\<dots> = round (doubleWpm 5 (7205759403792794 / 2 ^ 53))"
    by (simp only: toDouble_integers toDouble_800)
  also have "\<dots> = round (75 :: real)"
    by (simp only: doubleWpm_def of_nat_numeral toDouble_625 toDouble_375 toDouble_75)
  finally show ?thesis by simp
qed

lemma typing_speed_seven:
  "calculateTypingSpeed (pressedAt [0, 373, 746, 1120, 1493, 1866, 2240]) = 37"
proof -
  have "calculateTypingSpeed (pressedAt [0, 373, 746, 1120, 1493, 1866, 2240])
      = round (doubleWpm 7 (toDouble (toDouble (real_of_int 2240) / 1000)))"
    using typing_speed_pressedAt [of "[0, 373, 746, 1120, 1493, 1866, 2240]"] by (simp add: eval_nat_numeral)
  also have "\<dots> = round (doubleWpm 7 (5044031582654956 / 2 ^ 51))"
    by (simp only: toDouble_integers toDouble_2240)
  also have "\<dots> = round (5277655813324799 / 2 ^ 47 :: real)"
    by (simp only: doubleWpm_def of_nat_numeral toDouble_3125 toDouble_1875 toDouble_37)
  finally show ?thesis by (simp add: round_def)
qed

lemma typing_speed_two: "calculateTypingSpeed (pressedAt [0, 1000]) = 24"
proof -
  have a: "toDouble (1000 / 1000) = 1" "toDouble (2 / 1) = 2" "toDouble (2 * 60) = 120"
    "toDouble (120 / 5) = 24"
    using toDouble_of_int_small [of 1] toDouble_of_int_small [of 2]
      toDouble_of_int_small [of 120] toDouble_of_int_small [of 24]
    by simp_all
  have "calculateTypingSpeed (pressedAt [0, 1000])
      = round (doubleWpm 2 (toDouble (toDouble (real_of_int 1000) / 1000)))"
    using typing_speed_pressedAt [of "[0, 1000]"] by (simp add: eval_nat_numeral)
  also have "\<dots> = round (24 :: real)"
    by (simp only: doubleWpm_def of_nat_numeral toDouble_integers a)
  finally show ?thesis by simp
qed

text \<open>
  Claim C5, as the specification states it, fails where the exact quotient lies halfway
  between two integers.  Seven key presses, the first at 0 and the last at 2240 ms: the
  exact value of \<^verbatim>\<open>7 / 2.24 * 60 / 5\<close> is 37.5, which rounds to 38.  The program divides
  by the double nearest to 2.24, which is a little larger, and after its four roundings
  holds a double just below 37.5: it returns 37.
\<close>

theorem calculateTypingSpeed_not_exact:
  "calculateTypingSpeed (pressedAt [0, 373, 746, 1120, 1493, 1866, 2240])
   \<noteq> exactTypingSpeed (pressedAt [0, 373, 746, 1120, 1493, 1866, 2240])"
proof -
  have "exactTypingSpeed (pressedAt [0, 373, 746, 1120, 1493, 1866, 2240]) = 38"
    using pressedAt_first_last [of "[0, 373, 746, 1120, 1493, 1866, 2240]"]
    by (simp add: exactTypingSpeed_def Let_def round_def)
  then show ?thesis
    by (simp add: typing_speed_seven)
qed

text \<open>
  Claim C5, amended.  \<^verbatim>\<open>calculateTypingSpeed\<close> returns 0 when the buffer holds fewer
  than two key-down events, or when the first and the last key-down event carry the same
  timestamp; otherwise it returns the number of key-down events divided by the span in
  seconds, times 60, divided by 5, each operation rounded to a double, the result
  rounded as \<^verbatim>\<open>Math.round\<close> does.  The guard on the length of the whole buffer adds
  no case, since a buffer of fewer than two events holds fewer than two key-down events.
  Five key presses at 0, 200, 400, 600 and 800 ms give exactly 75.
\<close>

theorem calculateTypingSpeed_formula:
  "calculateTypingSpeed t =
     (let D = filter (\<lambda>e. eventType e = ''keydown'') (keyEvents t);
          span = toDouble (toDouble (real_of_int (timestamp (last D) - timestamp (hd D))) / 1000)
      in if length D < 2 then 0
         else if timestamp (last D) = timestamp (hd D) then 0
         else round (toDouble (toDouble (toDouble (real (length D) / span) * 60) / 5)))
   \<and> calculateTypingSpeed (pressedAt [0, 200, 400, 600, 800]) = 75"
proof
  have "calculateTypingSpeed t =
     (if length (keyDownEvents t) < 2 then 0
      else if timestamp (last (keyDownEvents t)) = timestamp (hd (keyDownEvents t)) then 0
      else round (doubleWpm (length (keyDownEvents t)) (timeSpan t)))"
    by (simp only: typing_speed_keyDownEvents timeSpan_zero_iff)
  then show "calculateTypingSpeed t =
     (let D = filter (\<lambda>e. eventType e = ''keydown'') (keyEvents t);
          span = toDouble (toDouble (real_of_int (timestamp (last D) - timestamp (hd D))) / 1000)
      in if length D < 2 then 0
         else if timestamp (last D) = timestamp (hd D) then 0
         else round (toDouble (toDouble (toDouble (real (length D) / span) * 60) / 5)))"
    by (simp only: keyDownEvents_def timeSpan_def doubleWpm_def Let_def)
  show "calculateTypingSpeed (pressedAt [0, 200, 400, 600, 800]) = 75"
    by (rule typing_speed_five)
qed

theorem calculateTypingSpeed_formula_witness:
  "calculateTypingSpeed (pressedAt [0, 1000]) = 24
   \<and> calculateTypingSpeed (pressedAt [5, 5]) = 0
   \<and> calculateTypingSpeed (pressedAt [7]) = 0
   \<and> calculateTypingSpeed (pressedAt [0, 200, 400, 600, 800]) = 75"
proof -
  from calculateTypingSpeed_formula [of "pressedAt [5, 5]"]
    pressedAt_first_last [of "[5, 5]"]
  have a: "calculateTypingSpeed (pressedAt [5, 5]) = 0"
    by (simp add: keyDownEvents_def [symmetric] Let_def)
  from calculateTypingSpeed_formula [of "pressedAt [7]"]
    pressedAt_first_last [of "[7]"]
  have b: "calculateTypingSpeed (pressedAt [7]) = 0"
    by (simp add: keyDownEvents_def [symmetric] Let_def)
  from a b typing_speed_two calculateTypingSpeed_formula [of "pressedAt [7]"]
  show ?thesis by simp
qed

text \<open>
  Claim C7.  Take two buffers whose key-down events have the same first and the same
  last timestamp, the first not after the last, the second buffer holding at least as
  many key-down events as the first (such as the first buffer with further key-down
  events added between its first and last one).  Then the typing speed of the second
  buffer is at least that of the first.
\<close>

theorem calculateTypingSpeed_mono:
  assumes ne: "keyDownEvents t1 \<noteq> []"
    and first: "timestamp (hd (keyDownEvents t2)) = timestamp (hd (keyDownEvents t1))"
    and lst: "timestamp (last (keyDownEvents t2)) = timestamp (last (keyDownEvents t1))"
    and ord: "timestamp (hd (keyDownEvents t1)) \<le> timestamp (last (keyDownEvents t1))"
    and more: "length (keyDownEvents t1) \<le> length (keyDownEvents t2)"
  shows "calculateTypingSpeed t1 \<le> calculateTypingSpeed t2"
proof -
  have same: "timeSpan t2 = timeSpan t1"
    by (simp only: timeSpan_def first lst)
  have nonneg: "0 \<le> timeSpan t1" using ord by (rule timeSpan_nonneg)
  show ?thesis
  proof (cases "length (keyDownEvents t1) < 2 \<or> timeSpan t1 = 0")
    case True
    then have "calculateTypingSpeed t1 = 0"
      by (auto simp only: typing_speed_keyDownEvents if_True split: if_splits)
    moreover have "keyDownEvents t2 \<noteq> []" using ne more by auto
    then have "0 \<le> calculateTypingSpeed t2"
      using typing_speed_nonneg [of t2] first lst ord by simp
    ultimately show ?thesis by simp
  next
    case False
    with nonneg have pos: "0 < timeSpan t1" by simp
    have "doubleWpm (length (keyDownEvents t1)) (timeSpan t1)
        \<le> doubleWpm (length (keyDownEvents t2)) (timeSpan t1)"
      using pos more by (rule doubleWpm_mono)
    then have "round (doubleWpm (length (keyDownEvents t1)) (timeSpan t1))
        \<le> round (doubleWpm (length (keyDownEvents t2)) (timeSpan t1))"
      by (rule round_mono)
    moreover have "\<not> length (keyDownEvents t2) < 2" using False more by simp
    ultimately show ?thesis
      using False by (simp only: typing_speed_keyDownEvents same) simp
  qed
qed

lemma keyDownEvents_pressedAt_two:
  "keyDownEvents (pressedAt [a, b]) =
     [\<lparr>key = ''a'', code = ''KeyA'', timestamp = a, eventType = ''keydown'', pressure = Some 1\<rparr>,
      \<lparr>key = ''a'', code = ''KeyA'', timestamp = b, eventType = ''keydown'', pressure = Some 1\<rparr>]"
  by (simp add: keyDownEvents_def pressedAt_def keydown_def KeyboardTracker_startTracking_def
      new_KeyboardTracker_def Let_def)

lemma keyDownEvents_pressedAt_three:
  "keyDownEvents (pressedAt [a, b, c]) =
     [\<lparr>key = ''a'', code = ''KeyA'', timestamp = a, eventType = ''keydown'', pressure = Some 1\<rparr>,
      \<lparr>key = ''a'', code = ''KeyA'', timestamp = b, eventType = ''keydown'', pressure = Some 1\<rparr>,
      \<lparr>key = ''a'', code = ''KeyA'', timestamp = c, eventType = ''keydown'', pressure = Some 1\<rparr>]"
  by (simp add: keyDownEvents_def pressedAt_def keydown_def KeyboardTracker_startTracking_def
      new_KeyboardTracker_def Let_def)

theorem calculateTypingSpeed_mono_witness:
  "keyDownEvents (pressedAt [0, 1000]) \<noteq> []
   \<and> timestamp (hd (keyDownEvents (pressedAt [0, 500, 1000])))
       = timestamp (hd (keyDownEvents (pressedAt [0, 1000])))
   \<and> timestamp (last (keyDownEvents (pressedAt [0, 500, 1000])))
       = timestamp (last (keyDownEvents (pressedAt [0, 1000])))
   \<and> timestamp (hd (keyDownEvents (pressedAt [0, 1000])))
       \<le> timestamp (last (keyDownEvents (pressedAt [0, 1000])))
   \<and> length (keyDownEvents (pressedAt [0, 1000]))
       \<le> length (keyDownEvents (pressedAt [0, 500, 1000]))
   \<and> calculateTypingSpeed (pressedAt [0, 1000])
       \<le> calculateTypingSpeed (pressedAt [0, 500, 1000])"
proof -
  have h1: "keyDownEvents (pressedAt [0, 1000]) \<noteq> []"
    by (simp add: keyDownEvents_pressedAt_two)
  have h2: "timestamp (hd (keyDownEvents (pressedAt [0, 500, 1000])))
      = timestamp (hd (keyDownEvents (pressedAt [0, 1000])))"
    by (simp add: keyDownEvents_pressedAt_two keyDownEvents_pressedAt_three)
  have h3: "timestamp (last (keyDownEvents (pressedAt [0, 500, 1000])))
      = timestamp (last (keyDownEvents (pressedAt [0, 1000])))"
    by (simp add: keyDownEvents_pressedAt_two keyDownEvents_pressedAt_three)
  have h4: "timestamp (hd (keyDownEvents (pressedAt [0, 1000])))
      \<le> timestamp (last (keyDownEvents (pressedAt [0, 1000])))"
    by (simp add: keyDownEvents_pressedAt_two)
  have h5: "length (keyDownEvents (pressedAt [0, 1000]))
      \<le> length (keyDownEvents (pressedAt [0, 500, 1000]))"
    by (simp add: keyDownEvents_pressedAt_two keyDownEvents_pressedAt_three)
  from calculateTypingSpeed_mono [OF h1 h2 h3 h4 h5] h1 h2 h3 h4 h5
  show ?thesis by blast
qed

section \<open>Key-press variance\<close>

text \<open>
  Claim C3, as the specification states it, fails: a tracker that has been started and
  has recorded one press of Backspace has \<open>backspaceRatio = 1\<close>, so the claimed value
  is 0.3, while \<^verbatim>\<open>calculateKeyPressVariance\<close> returns 0 because the buffer holds
  fewer than two events.
\<close>

theorem calculateKeyPressVariance_single_backspace:
  "calculateKeyPressVariance
     (keydown ''Backspace'' ''Backspace'' 0
        (KeyboardTracker_startTracking 0 new_KeyboardTracker))
   \<noteq> backspaceRatio
       (keydown ''Backspace'' ''Backspace'' 0
          (KeyboardTracker_startTracking 0 new_KeyboardTracker)) * 0.3"
  by (simp add: calculateKeyPressVariance_def backspaceRatio_def keydown_def
      KeyboardTracker_startTracking_def new_KeyboardTracker_def Let_def)

text \<open>
  Claim C3, amended.  \<^verbatim>\<open>calculateKeyPressVariance\<close> returns 0 when the buffer holds
  fewer than two events (key-down and key-up events alike), and otherwise
  \<open>backspaceRatio * 0.3\<close>, that is \<open>backspaceCount / max(totalKeyPresses, 1) * 0.3\<close>.
\<close>

theorem calculateKeyPressVariance_guarded:
  "calculateKeyPressVariance t =
     (if length (keyEvents t) < 2 then 0
      else real (backspaceCount t) / real (max (totalKeyPresses t) 1) * 0.3)
   \<and> (if length (keyEvents t) < 2 then calculateKeyPressVariance t = 0
       else calculateKeyPressVariance t = backspaceRatio t * 0.3)"
  by (simp add: calculateKeyPressVariance_def backspaceRatio_def Let_def)

theorem calculateKeyPressVariance_guarded_witness:
  "calculateKeyPressVariance
     (keydown ''Backspace'' ''Backspace'' 1 (pressedAt [0])) = 0.15"
  using calculateKeyPressVariance_guarded
    [of "keydown ''Backspace'' ''Backspace'' 1 (pressedAt [0])"]
  by (simp add: pressedAt_def keydown_def KeyboardTracker_startTracking_def
      new_KeyboardTracker_def Let_def)

section \<open>Total distance\<close>

lemma mousemove_tracking: "mouseIsTracking (mousemove x y now t) = mouseIsTracking t"
  by (simp add: mousemove_def Let_def)

lemma mousemove_last:
  "mouseIsTracking t \<Longrightarrow> lastMousePosition (mousemove x y now t) = (x, y)"
  by (simp add: mousemove_def Let_def)

lemma mousemove_distance:
  "mouseIsTracking t \<Longrightarrow>
   totalDistance (mousemove x y now t) =
     totalDistance t
     + (if lastMousePosition t = (0, 0) then 0 else euclid (lastMousePosition t) (x, y))"
  by (cases "lastMousePosition t") (auto simp add: mousemove_def Let_def euclid_def)

lemma moved_distance:
  "mouseIsTracking t \<Longrightarrow>
   totalDistance (moved t ms)
     = totalDistance t + countedDistance (lastMousePosition t # positions ms)"
proof (induction ms arbitrary: t)
  case Nil
  then show ?case by (simp add: moved_def positions_def)
next
  case (Cons m ms)
  obtain x y now where m: "m = (x, y, now)" by (cases m)
  have step: "moved t ((x, y, now) # ms) = moved (mousemove x y now t) ms"
    by (simp add: moved_def)
  have tr: "mouseIsTracking (mousemove x y now t)"
    using Cons.prems by (simp add: mousemove_tracking)
  show ?case
    using Cons.IH [OF tr] Cons.prems
    by (simp add: step mousemove_distance mousemove_last m positions_def)
qed

lemma counted_eq_consecutive:
  "(0, 0) \<notin> set (butlast ps) \<Longrightarrow> countedDistance ps = consecutiveDistance ps"
  by (induction ps rule: consecutiveDistance.induct) (auto split: if_splits)

lemma sqrt_25: "sqrt 25 = 5"
  using real_sqrt_abs [of 5] by simp

text \<open>
  Claim C4, as the specification states it, fails.  After a reset the pointer moves to
  \<open>(3, 4)\<close>, to \<open>(0, 0)\<close> and back to \<open>(3, 4)\<close>.  The distances between consecutive
  positions sum to 10, but \<^verbatim>\<open>totalDistance\<close> is 5: the third move finds the last
  position \<open>(0, 0)\<close>, which the listener takes for "no position yet".
\<close>

theorem totalDistance_through_origin:
  "totalDistance
     (moved (MouseTracker_startTracking (MouseTracker_reset new_MouseTracker))
        [(3, 4, 0), (0, 0, 10), (3, 4, 20)])
   \<noteq> consecutiveDistance [(3, 4), (0, 0), (3, 4)]"
  by (simp add: moved_def mousemove_def MouseTracker_startTracking_def MouseTracker_reset_def
      new_MouseTracker_def Let_def euclid_def sqrt_25)

text \<open>
  Claim C4, amended.  For every sequence of move events recorded by a tracker that was
  reset (and then started, or was tracking all along), \<^verbatim>\<open>totalDistance\<close> is the sum
  of the Euclidean distances between consecutive move positions, taken over the pairs
  whose earlier position is not \<open>(0, 0)\<close>; the first move contributes nothing.  When no
  move except possibly the last one lands on \<open>(0, 0)\<close>, this is the sum over all pairs
  of consecutive positions.
\<close>

theorem totalDistance_after_reset:
  "totalDistance (moved (MouseTracker_startTracking (MouseTracker_reset t)) ms)
     = countedDistance (positions ms)
   \<and> (mouseIsTracking t \<longrightarrow>
        totalDistance (moved (MouseTracker_reset t) ms) = countedDistance (positions ms))
   \<and> ((0, 0) \<notin> set (butlast (positions ms)) \<longrightarrow>
        totalDistance (moved (MouseTracker_startTracking (MouseTracker_reset t)) ms)
          = consecutiveDistance (positions ms))"
proof -
  let ?s = "MouseTracker_startTracking (MouseTracker_reset t)"
  let ?r = "MouseTracker_reset t"
  have s: "mouseIsTracking ?s" "totalDistance ?s = 0" "lastMousePosition ?s = (0, 0)"
    by (simp_all add: MouseTracker_startTracking_def MouseTracker_reset_def)
  have r: "mouseIsTracking ?r = mouseIsTracking t" "totalDistance ?r = 0"
    "lastMousePosition ?r = (0, 0)"
    by (simp_all add: MouseTracker_reset_def)
  have b: "countedDistance ((0, 0) # positions ms) = countedDistance (positions ms)"
    by (cases "positions ms") simp_all
  have a: "totalDistance (moved ?s ms) = countedDistance (positions ms)"
    using moved_distance [OF s(1), of ms] s b by simp
  have c: "totalDistance (moved ?r ms) = countedDistance (positions ms)"
    if "mouseIsTracking t"
    using moved_distance [of ?r ms] that r b by simp
  show ?thesis using a c counted_eq_consecutive by simp
qed

theorem totalDistance_after_reset_witness:
  "(0, 0) \<notin> set (butlast (positions [(3, 4, 0), (6, 8, 10)]))
   \<and> mouseIsTracking (MouseTracker_startTracking new_MouseTracker)
   \<and> totalDistance
       (moved (MouseTracker_reset (MouseTracker_startTracking new_MouseTracker))
          [(3, 4, 0), (6, 8, 10)]) = 5
   \<and> totalDistance
       (moved (MouseTracker_startTracking
                 (MouseTracker_reset (MouseTracker_startTracking new_MouseTracker)))
          [(3, 4, 0), (6, 8, 10)]) = 5"
proof -
  have h: "mouseIsTracking (MouseTracker_startTracking new_MouseTracker)"
    by (simp add: MouseTracker_startTracking_def)
  from totalDistance_after_reset
    [of "MouseTracker_startTracking new_MouseTracker" "[(3, 4, 0), (6, 8, 10)]"] h
  show ?thesis
    by (simp add: positions_def euclid_def sqrt_25)
qed

text \<open>
  On the page a reset is followed by a start before anything is recorded again; the
  mouse tracker is then in the state the theorem above starts from.
\<close>

lemma reset_then_start:
  "trackMouse a \<Longrightarrow>
   mouseTracker (startMonitoring now (resetSession a))
     = MouseTracker_startTracking (MouseTracker_reset (mouseTracker a))"
  by (simp add: startMonitoring_def resetSession_def Let_def MouseTracker_startTracking_def
      MouseTracker_stopTracking_def MouseTracker_reset_def)

text \<open>
  Claim C9.  While the tracker is tracking, a move to \<open>(0, 0)\<close> followed by a move to
  any position records both moves, and the second one adds nothing to
  \<^verbatim>\<open>totalDistance\<close>; the same holds for the first move after \<^verbatim>\<open>reset()\<close>, which
  also leaves the last position at \<open>(0, 0)\<close>.
\<close>

theorem origin_counts_as_unset:
  assumes "mouseIsTracking t"
  shows "mouseEvents (mousemove x y n2 (mousemove 0 0 n1 t))
           = mouseEvents t
             @ [MoveData 0 0 n1 (calculateMovementSpeed 0 0 n1 t),
                MoveData x y n2 (calculateMovementSpeed x y n2 (mousemove 0 0 n1 t))]
       \<and> totalDistance (mousemove x y n2 (mousemove 0 0 n1 t))
           = totalDistance (mousemove 0 0 n1 t)
       \<and> totalDistance (mousemove x y n2 (MouseTracker_reset t))
           = totalDistance (MouseTracker_reset t)"
  using assms by (simp add: mousemove_def MouseTracker_reset_def Let_def)

theorem origin_counts_as_unset_witness:
  "mouseIsTracking (moved (MouseTracker_startTracking new_MouseTracker) [(3, 4, 0)])
   \<and> totalDistance
       (mousemove 0 0 10 (moved (MouseTracker_startTracking new_MouseTracker) [(3, 4, 0)])) = 5
   \<and> totalDistance
       (mousemove 3 4 20
          (mousemove 0 0 10 (moved (MouseTracker_startTracking new_MouseTracker) [(3, 4, 0)])))
       = 5"
proof -
  have h: "mouseIsTracking (moved (MouseTracker_startTracking new_MouseTracker) [(3, 4, 0)])"
    by (simp add: moved_def mousemove_tracking MouseTracker_startTracking_def)
  have five: "totalDistance
       (mousemove 0 0 10 (moved (MouseTracker_startTracking new_MouseTracker) [(3, 4, 0)])) = 5"
    by (simp add: moved_def mousemove_def MouseTracker_startTracking_def new_MouseTracker_def
        Let_def sqrt_25)
  from origin_counts_as_unset [OF h, of 3 4 20 10] h five
  show ?thesis by simp
qed

section \<open>Mouse randomness\<close>

lemma foldl_plus: "foldl (\<lambda>a b. a + f b) z xs = z + sum_list (map f xs)"
  for z :: real
  by (induction xs arbitrary: z) simp_all

lemma foldl_plus_id: "foldl (\<lambda>a b. a + b) z xs = z + sum_list xs"
  for z :: real
  using foldl_plus [of "\<lambda>b. b" z xs] by simp

lemma populationVariance_nonneg: "0 \<le> populationVariance xs"
proof -
  have "0 \<le> sum_list (map (\<lambda>x. (x - m) ^ 2) xs)" for m :: real
    by (rule sum_list_nonneg) auto
  then show ?thesis
    by (simp add: populationVariance_def Let_def)
qed

text \<open>The index loop of the program computes the angles of the path, triple by triple.\<close>

lemma angleChange_Cons: "2 \<le> i \<Longrightarrow> angleChange (a # xs) (Suc i) = angleChange xs i"
proof -
  assume "2 \<le> i"
  then obtain j where j: "i = 2 + j"
    using le_Suc_ex by blast
  show ?thesis by (simp add: angleChange_def j)
qed

lemma angleChanges_Cons:
  assumes len: "2 \<le> length xs"
  shows "angleChanges (a # xs) = angleChange (a # xs) 2 @ angleChanges xs"
proof -
  have idx: "[2..<Suc (length xs)] = 2 # map Suc [2..<length xs]"
    using len by (simp add: upt_conv_Cons map_Suc_upt numeral_2_eq_2 Suc_le_eq)
  have shift: "map (angleChange (a # xs)) (map Suc [2..<length xs])
      = map (angleChange xs) [2..<length xs]"
    by (simp add: angleChange_Cons)
  have "angleChanges (a # xs) = concat (map (angleChange (a # xs)) [2..<Suc (length xs)])"
    by (simp only: angleChanges_def length_Cons)
  also have "\<dots> = angleChange (a # xs) 2
      @ concat (map (angleChange (a # xs)) (map Suc [2..<length xs]))"
    by (simp only: idx list.map concat.simps)
  also have "\<dots> = angleChange (a # xs) 2 @ angleChanges xs"
    by (simp only: shift angleChanges_def)
  finally show ?thesis .
qed

lemma angleChanges_short: "length xs < 3 \<Longrightarrow> angleChanges xs = []"
  by (simp add: angleChanges_def)

lemma angleChanges_turningAngles: "angleChanges mv = turningAngles (map position mv)"
proof (induction "map position mv" arbitrary: mv rule: turningAngles.induct)
  case (1 p q r ps)
  then obtain a b c rest where mv: "mv = a # b # c # rest"
    and pq: "p = position a" "q = position b" "r = position c" "ps = map position rest"
    by (auto simp add: map_eq_Cons_conv)
  have IH: "angleChanges (b # c # rest) = turningAngles (map position (b # c # rest))"
    using 1(1) [of "b # c # rest"] pq by simp
  have "angleChanges mv = angleChange mv 2 @ angleChanges (b # c # rest)"
    unfolding mv by (rule angleChanges_Cons) simp
  then show ?case
    using IH by (simp add: mv angleChange_def position_def Let_def)
next
  case (2 p q)
  then have "length mv < 3" by (auto simp add: map_eq_Cons_conv)
  then show ?case using 2 [symmetric] by (simp add: angleChanges_short)
next
  case (3 p)
  then have "length mv < 3" by (auto simp add: map_eq_Cons_conv)
  then show ?case using 3 [symmetric] by (simp add: angleChanges_short)
next
  case 4
  then show ?case by (simp add: angleChanges_def)
qed

lemma randomness_few: "length (moveEvents t) < 3 \<Longrightarrow> calculateMouseRandomness t = 0.1"
  by (simp add: calculateMouseRandomness_def moveEvents_def Let_def)

lemma randomness_many:
  assumes "3 \<le> length (moveEvents t)" "angleChanges (moveEvents t) \<noteq> []"
  shows "calculateMouseRandomness t
    = min (10 * populationVariance (angleChanges (moveEvents t))) 1"
proof -
  have "length (moveEvents t) \<le> length (mouseEvents t)"
    by (simp add: moveEvents_def)
  with assms(1) have "\<not> length (mouseEvents t) < 3" by linarith
  with assms show ?thesis
    by (simp add: calculateMouseRandomness_def moveEvents_def [symmetric] Let_def
        foldl_plus foldl_plus_id populationVariance_def mult.commute)
qed

lemma angleChange_still:
  assumes "sqrt ((m_x (mv ! (i - 1)) - m_x (mv ! (i - 2)))
                   * (m_x (mv ! (i - 1)) - m_x (mv ! (i - 2)))
               + (m_y (mv ! (i - 1)) - m_y (mv ! (i - 2)))
                   * (m_y (mv ! (i - 1)) - m_y (mv ! (i - 2)))) = 0"
  shows "angleChange mv i = []"
  using assms by (simp add: angleChange_def Let_def)

lemma sqrt_100: "sqrt 100 = 10"
  using real_sqrt_abs [of 10] by simp

lemma moveEvents_moved_three:
  "moveEvents (moved (MouseTracker_startTracking new_MouseTracker)
       [(x1, y1, n1), (x2, y2, n2), (x3, y3, n3)])
     = [MoveData x1 y1 n1 0,
        MoveData x2 y2 n2
          (if real_of_int (n2 - n1) / 1000 = 0 then 0
           else sqrt ((x2 - x1) * (x2 - x1) + (y2 - y1) * (y2 - y1))
                  / (real_of_int (n2 - n1) / 1000)),
        MoveData x3 y3 n3
          (if real_of_int (n3 - n2) / 1000 = 0 then 0
           else sqrt ((x3 - x2) * (x3 - x2) + (y3 - y2) * (y3 - y2))
                  / (real_of_int (n3 - n2) / 1000))]"
  by (simp add: moveEvents_def moved_def mousemove_def calculateMovementSpeed_def
      MouseTracker_startTracking_def new_MouseTracker_def Let_def)

lemma moveEvents_restingPath:
  "moveEvents restingPath = [MoveData 1 1 0 0, MoveData 1 1 10 0, MoveData 1 1 20 0]"
  by (simp add: restingPath_def moveEvents_moved_three)

lemma randomness_restingPath: "calculateMouseRandomness restingPath = 0.1"
  by (simp add: restingPath_def calculateMouseRandomness_def moved_def mousemove_def
      MouseTracker_startTracking_def new_MouseTracker_def Let_def
      angleChanges_def angleChange_def)

text \<open>
  Claim C6, as the specification states it, fails.  Three pointer moves that stay at
  \<open>(1, 1)\<close> are three move events, yet no angle exists between their displacements,
  so there is no variance to scale: the function returns its floor 0.1.  The value the
  claim gives for three or more move events is not 0.1; for the empty list of angles the
  quotient \<open>0 / 0\<close> in the variance is 0 in HOL, so the claimed value reads 0 here.
\<close>

theorem mouseRandomness_no_angles:
  "3 \<le> length (moveEvents restingPath)
   \<and> turningAngles (map position (moveEvents restingPath)) = []
   \<and> calculateMouseRandomness restingPath = 0.1
   \<and> calculateMouseRandomness restingPath
       \<noteq> min (10 * populationVariance
                      (turningAngles (map position (moveEvents restingPath)))) 1"
  by (simp add: randomness_restingPath moveEvents_restingPath position_def
      populationVariance_def)

lemma positions_moved:
  "mouseIsTracking t \<Longrightarrow>
   map position (moveEvents (moved t ms)) = map position (moveEvents t) @ positions ms"
proof (induction ms arbitrary: t)
  case Nil
  then show ?case by (simp add: moved_def positions_def)
next
  case (Cons m ms)
  obtain x y now where m: "m = (x, y, now)" by (cases m)
  have step: "moved t ((x, y, now) # ms) = moved (mousemove x y now t) ms"
    by (simp add: moved_def)
  have tr: "mouseIsTracking (mousemove x y now t)"
    using Cons.prems by (simp add: mousemove_tracking)
  have one: "map position (moveEvents (mousemove x y now t))
      = map position (moveEvents t) @ [(x, y)]"
    using Cons.prems by (simp add: mousemove_def moveEvents_def position_def Let_def)
  show ?case
    using Cons.IH [OF tr] by (simp add: m step one positions_def)
qed

lemma positions_started:
  "map position (moveEvents (moved (MouseTracker_startTracking new_MouseTracker) ms))
     = positions ms"
  using positions_moved [of "MouseTracker_startTracking new_MouseTracker" ms]
  by (simp add: MouseTracker_startTracking_def new_MouseTracker_def moveEvents_def)

lemma turningAngles_cornerPath:
  "turningAngles (map position (moveEvents cornerPath)) = [0, pi / 2]"
  by (simp add: cornerPath_def positions_started positions_def sqrt_100)

lemma turningAngles_stopAndGo:
  "turningAngles (map position (moveEvents stopAndGo)) = []"
  by (simp add: stopAndGo_def positions_started positions_def)

lemma variance_corner: "populationVariance [0, pi / 2] = pi\<^sup>2 / 16"
  by (simp add: populationVariance_def power2_eq_square field_simps)

lemma variance_corner_large: "1 \<le> 10 * (pi\<^sup>2 / 16)"
proof -
  have "2 * 2 \<le> pi * pi"
    using pi_ge_two by (intro mult_mono) simp_all
  then show ?thesis by (simp add: power2_eq_square)
qed

text \<open>
  Claim C6, amended.  \<^verbatim>\<open>calculateMouseRandomness\<close> returns exactly 0.1 when the
  buffer holds fewer than three move events.  For three or more move events it returns
  0.1 when no angle exists between consecutive displacement vectors (each triple has a
  displacement of length 0), and otherwise the minimum of 1 and ten times the population
  variance of those angles.  In every case the value lies between 0 and 1.  The collinear
  moves \<open>(0,0)\<close>, \<open>(10,0)\<close>, \<open>(20,0)\<close> give exactly 0.
\<close>

theorem mouseRandomness_spec:
  "(length (moveEvents t) < 3 \<longrightarrow> calculateMouseRandomness t = 0.1)
   \<and> (3 \<le> length (moveEvents t) \<longrightarrow>
        calculateMouseRandomness t
          = (if turningAngles (map position (moveEvents t)) = [] then 0.1
             else min (10 * populationVariance
                              (turningAngles (map position (moveEvents t)))) 1))
   \<and> 0 \<le> calculateMouseRandomness t \<and> calculateMouseRandomness t \<le> 1
   \<and> calculateMouseRandomness straightPath = 0"
proof -
  let ?angles = "turningAngles (map position (moveEvents t))"
  have few: "calculateMouseRandomness t = 0.1" if "length (moveEvents t) < 3"
    using that by (rule randomness_few)
  have none: "calculateMouseRandomness t = 0.1"
    if "3 \<le> length (moveEvents t)" "?angles = []"
    using that
    by (simp add: calculateMouseRandomness_def moveEvents_def [symmetric] Let_def
        angleChanges_turningAngles)
  have some: "calculateMouseRandomness t = min (10 * populationVariance ?angles) 1"
    if "3 \<le> length (moveEvents t)" "?angles \<noteq> []"
    using randomness_many [of t] that by (simp add: angleChanges_turningAngles)
  have range: "0 \<le> calculateMouseRandomness t \<and> calculateMouseRandomness t \<le> 1"
  proof (cases "length (moveEvents t) < 3")
    case True
    then show ?thesis by (simp add: few)
  next
    case False
    then have three: "3 \<le> length (moveEvents t)" by simp
    show ?thesis
    proof (cases "?angles = []")
      case True
      then show ?thesis by (simp add: none [OF three])
    next
      case False
      then show ?thesis
        using populationVariance_nonneg [of ?angles] by (simp add: some [OF three])
    qed
  qed
  have straight: "calculateMouseRandomness straightPath = 0"
    by (simp add: straightPath_def calculateMouseRandomness_def moved_def mousemove_def
      MouseTracker_startTracking_def new_MouseTracker_def Let_def
      angleChanges_def angleChange_def sqrt_100)
  show ?thesis
    using few none some range straight by simp
qed

theorem mouseRandomness_spec_witness:
  "3 \<le> length (moveEvents cornerPath)
   \<and> turningAngles (map position (moveEvents cornerPath)) = [0, pi / 2]
   \<and> populationVariance [0, pi / 2] = pi\<^sup>2 / 16
   \<and> calculateMouseRandomness cornerPath = 1
   \<and> 3 \<le> length (moveEvents stopAndGo)
   \<and> turningAngles (map position (moveEvents stopAndGo)) = []
   \<and> calculateMouseRandomness stopAndGo = 0.1
   \<and> length (moveEvents (MouseTracker_startTracking new_MouseTracker)) < 3
   \<and> calculateMouseRandomness (MouseTracker_startTracking new_MouseTracker) = 0.1"
proof -
  let ?u = "MouseTracker_startTracking new_MouseTracker"
  have "length (map position (moveEvents cornerPath)) = 4"
    by (simp add: cornerPath_def positions_started positions_def)
  then have h1: "3 \<le> length (moveEvents cornerPath)" by simp
  have "length (map position (moveEvents stopAndGo)) = 3"
    by (simp add: stopAndGo_def positions_started positions_def)
  then have h2: "3 \<le> length (moveEvents stopAndGo)" by simp
  have h3: "length (moveEvents ?u) < 3"
    by (simp add: moveEvents_def MouseTracker_startTracking_def new_MouseTracker_def)
  have big: "min (5 * pi\<^sup>2 / 8) 1 = (1::real)"
    using variance_corner_large by simp
  from mouseRandomness_spec [of cornerPath] mouseRandomness_spec [of stopAndGo]
    mouseRandomness_spec [of ?u] h1 h2 h3
  show ?thesis
    by (simp add: turningAngles_cornerPath turningAngles_stopAndGo variance_corner big)
qed

text \<open>
  Claim C10.  When the buffer holds three or more move events and every displacement
  between consecutive move events has length 0, the loop finds no angle and
  \<^verbatim>\<open>calculateMouseRandomness\<close> returns the floor 0.1, not 0.
\<close>

theorem mouseRandomness_still:
  assumes three: "3 \<le> length (moveEvents t)"
    and still: "\<forall>i. Suc i < length (moveEvents t) \<longrightarrow>
       sqrt ((m_x (moveEvents t ! Suc i) - m_x (moveEvents t ! i))
               * (m_x (moveEvents t ! Suc i) - m_x (moveEvents t ! i))
           + (m_y (moveEvents t ! Suc i) - m_y (moveEvents t ! i))
               * (m_y (moveEvents t ! Suc i) - m_y (moveEvents t ! i))) = 0"
  shows "angleChanges (moveEvents t) = []
       \<and> calculateMouseRandomness t = 0.1 \<and> calculateMouseRandomness t \<noteq> 0"
proof -
  have "angleChange (moveEvents t) i = []" if "i \<in> set [2..<length (moveEvents t)]" for i
  proof -
    from that have i: "2 \<le> i" "i < length (moveEvents t)" by auto
    then have "Suc (i - 2) < length (moveEvents t)" by simp
    moreover have "Suc (i - 2) = i - 1" using i by simp
    ultimately show ?thesis
      using still [rule_format, of "i - 2"] by (simp add: angleChange_still)
  qed
  then have none: "angleChanges (moveEvents t) = []"
    by (simp add: angleChanges_def)
  then show ?thesis
    by (simp add: calculateMouseRandomness_def moveEvents_def [symmetric] Let_def)
qed

theorem mouseRandomness_still_witness:
  "3 \<le> length (moveEvents restingPath)
   \<and> map position (moveEvents restingPath) = [(1, 1), (1, 1), (1, 1)]
   \<and> angleChanges (moveEvents restingPath) = []
   \<and> calculateMouseRandomness restingPath = 0.1"
proof -
  have h1: "3 \<le> length (moveEvents restingPath)"
    by (simp add: moveEvents_restingPath)
  have h2: "\<forall>i. Suc i < length (moveEvents restingPath) \<longrightarrow>
       sqrt ((m_x (moveEvents restingPath ! Suc i) - m_x (moveEvents restingPath ! i))
               * (m_x (moveEvents restingPath ! Suc i) - m_x (moveEvents restingPath ! i))
           + (m_y (moveEvents restingPath ! Suc i) - m_y (moveEvents restingPath ! i))
               * (m_y (moveEvents restingPath ! Suc i) - m_y (moveEvents restingPath ! i)))
         = 0"
    by (auto simp add: moveEvents_restingPath nth_Cons' less_Suc_eq)
  have h3: "map position (moveEvents restingPath) = [(1, 1), (1, 1), (1, 1)]"
    by (simp add: moveEvents_restingPath position_def)
  from mouseRandomness_still [OF h1 h2] h1 h3
  show ?thesis by blast
qed

section \<open>The mouse-move listener on the page\<close>

lemma on_mousemove_tracker:
  "mouseTracker (on_mousemove a e) =
     (if mouseIsTracking (mouseTracker a)
      then mousemove (clientX e) (clientY e) (moveTime e) (mouseTracker a)
      else mouseTracker a)"
  by (simp add: on_mousemove_def updateVisualization_def ws_send_def Let_def)

lemma on_mousemove_visualization:
  "visualization (on_mousemove a e) =
     (if mouseIsTracking (mouseTracker a) \<and> ws a \<noteq> CONNECTING
      then addMousePoint (clientX e) (clientY e) (rectLeft e) (rectTop e) (pointTime e)
             (visualization a)
      else visualization a)"
  by (simp add: on_mousemove_def updateVisualization_def ws_send_def Let_def)

lemma on_mousemove_fields:
  "ws (on_mousemove a e) = ws a"
  "currentStressLevel (on_mousemove a e) = currentStressLevel a"
  "keyboardTracker (on_mousemove a e) = keyboardTracker a"
  "trackKeyboard (on_mousemove a e) = trackKeyboard a"
  "trackMouse (on_mousemove a e) = trackMouse a"
  "isMonitoring (on_mousemove a e) = isMonitoring a"
  by (simp_all add: on_mousemove_def updateVisualization_def ws_send_def Let_def)

section \<open>Average pressure\<close>

lemma carriedPressures_filter:
  "carriedPressures t =
     map m_pressure
       (filter (\<lambda>e. m_eventType e = ''click'' \<and> m_pressure e \<noteq> 0) (mouseEvents t))"
  by (simp add: carriedPressures_def clickPressures_def filter_map comp_def conj_commute)

lemma averagePressure_carried:
  "calculateAveragePressure t =
     (if carriedPressures t = [] then 1
      else sum_list (carriedPressures t) / real (length (carriedPressures t)))"
  by (simp add: calculateAveragePressure_def carriedPressures_filter Let_def foldl_plus)

lemma carried_all: "0 \<notin> set (clickPressures t) \<Longrightarrow> carriedPressures t = clickPressures t"
  by (simp add: carriedPressures_def filter_id_conv) metis

text \<open>
  The listeners keep every stored click pressure different from 0, as long as the stress
  level and the random draw are not negative: a click stores at least 0.8, and moves and
  scrolls store no pressure.
\<close>

lemma mousedown_pressure:
  assumes "mouseIsTracking t"
  shows "clickPressures (mousedown b x y now stress random t)
           = clickPressures t @ [0.8 + random * (0.1 + (stress / 4) * 0.3)]"
  using assms by (simp add: mousedown_def clickPressures_def Let_def)

lemma mousedown_keeps_pressures_nonzero:
  assumes "0 \<le> stress" "0 \<le> random" "0 \<notin> set (clickPressures t)"
  shows "0 \<notin> set (clickPressures (mousedown b x y now stress random t))"
proof (cases "mouseIsTracking t")
  case True
  have "0 \<le> random * (0.1 + (stress / 4) * 0.3)"
    using assms(1,2) by simp
  then have "0.8 + random * (0.1 + (stress / 4) * 0.3) \<noteq> 0"
    by linarith
  then show ?thesis
    using assms(3) True by (simp add: mousedown_pressure)
next
  case False
  then show ?thesis using assms(3) by (simp add: mousedown_def)
qed

lemma mousemove_pressure: "clickPressures (mousemove x y now t) = clickPressures t"
  by (simp add: mousemove_def clickPressures_def Let_def)

lemma wheel_pressure: "clickPressures (wheel dX dY now t) = clickPressures t"
  by (simp add: wheel_def clickPressures_def Let_def)

lemma start_clears_pressures:
  "clickPressures (MouseTracker_startTracking t) = []"
  "clickPressures (MouseTracker_reset t) = []"
  "clickPressures (MouseTracker_stopTracking t) = clickPressures t"
  by (simp_all add: clickPressures_def MouseTracker_startTracking_def MouseTracker_reset_def
      MouseTracker_stopTracking_def)

lemma step_pressures:
  assumes "wellFormed i" "0 \<le> currentStressLevel a"
    "0 \<notin> set (clickPressures (mouseTracker a))"
  shows "0 \<le> currentStressLevel (app_step a i)
    \<and> 0 \<notin> set (clickPressures (mouseTracker (app_step a i)))"
proof (cases i)
  case (MouseDownIn btn x y now random)
  then show ?thesis
    using assms mousedown_keeps_pressures_nonzero [of "currentStressLevel a" random "mouseTracker a"]
    by (simp add: on_mousedown_def)
qed (use assms in \<open>simp_all add: on_mousemove_tracker on_mousemove_fields mousemove_pressure
    on_mouseup_def mouseup_def on_wheel_def wheel_pressure on_keydown_def
    on_keyup_def startMonitoring_def pauseMonitoring_def resetSession_def
    trackKeyboard_change_def trackMouse_change_def handleStressPrediction_def Let_def
    ws_onopen_def ws_closing_def ws_onclose_def initializeWebSocket_def
    start_clears_pressures\<close>)

lemma run_pressures:
  assumes "list_all wellFormed ins" "0 \<le> currentStressLevel a"
    "0 \<notin> set (clickPressures (mouseTracker a))"
  shows "0 \<le> currentStressLevel (foldl app_step a ins)
    \<and> 0 \<notin> set (clickPressures (mouseTracker (foldl app_step a ins)))"
  using assms
proof (induction ins arbitrary: a)
  case Nil
  then show ?case by simp
next
  case (Cons i ins)
  from Cons.prems have wf: "wellFormed i" "list_all wellFormed ins" by simp_all
  from step_pressures [OF wf(1) Cons.prems(2,3)]
  have "0 \<le> currentStressLevel (app_step a i)"
    "0 \<notin> set (clickPressures (mouseTracker (app_step a i)))" by simp_all
  from Cons.IH [OF wf(2) this] show ?case by simp
qed

lemma session_pressures:
  "list_all wellFormed ins \<Longrightarrow> 0 \<notin> set (clickPressures (mouseTracker (session kb ms ins)))"
  using run_pressures [of ins "new_StressDetectionApp kb ms"]
  by (simp add: session_def new_StressDetectionApp_def new_MouseTracker_def clickPressures_def)


lemma clickPressures_clickingSession:
  "clickPressures (mouseTracker (session True True clickingSession)) = [0.8, 1]"
  by (simp add: clickingSession_def session_def new_StressDetectionApp_def startMonitoring_def
      on_mousedown_def handleStressPrediction_def mousedown_def clickPressures_def Let_def
      MouseTracker_startTracking_def new_MouseTracker_def)

text \<open>
  Claim C8.  \<^verbatim>\<open>calculateAveragePressure\<close> returns 1 when the buffer holds no click
  event that carries a pressure, and otherwise the arithmetic mean of the pressures
  carried by the click events in the buffer.  In every session whose inputs are within
  the interface's ranges each click event in the buffer carries a pressure, so there the
  result is the mean of the pressure fields of all click events in the buffer, and 1
  when there is none.  The function has a value for every buffer: it has no failing
  branch, and its only division is by a length that is not 0.
\<close>

theorem averagePressure_mean:
  "calculateAveragePressure t =
     (if carriedPressures t = [] then 1
      else sum_list (carriedPressures t) / real (length (carriedPressures t)))
   \<and> (list_all wellFormed ins \<longrightarrow>
        calculateAveragePressure (mouseTracker (session kb ms ins)) =
          (if clickPressures (mouseTracker (session kb ms ins)) = [] then 1
           else sum_list (clickPressures (mouseTracker (session kb ms ins)))
                  / real (length (clickPressures (mouseTracker (session kb ms ins))))))"
  using averagePressure_carried carried_all [of "mouseTracker (session kb ms ins)"]
    session_pressures [of ins kb ms]
  by simp

theorem averagePressure_mean_witness:
  "list_all wellFormed clickingSession
   \<and> clickPressures (mouseTracker (session True True clickingSession)) = [0.8, 1]
   \<and> calculateAveragePressure (mouseTracker (session True True clickingSession)) = 0.9
   \<and> calculateAveragePressure (mouseTracker (session True True [])) = 1"
proof -
  have wf: "list_all wellFormed clickingSession" "list_all wellFormed []"
    by (simp_all add: clickingSession_def)
  have e: "clickPressures (mouseTracker (session True True [])) = []"
    by (simp add: session_def clickPressures_def new_StressDetectionApp_def new_MouseTracker_def)
  from averagePressure_mean [of "mouseTracker (session True True [])" clickingSession True True]
    averagePressure_mean [of "mouseTracker (session True True [])" "[]" True True]
    wf clickPressures_clickingSession e
  show ?thesis by simp
qed


section \<open>The pointer buffers\<close>

lemma window_append:
  "drop (length (drop (length ys - M) ys @ zs) - M) (drop (length ys - M) ys @ zs)
     = drop (length (ys @ zs) - M) (ys @ zs)"
proof (cases "length ys \<le> M")
  case True
  then show ?thesis by simp
next
  case False
  then have gt: "M < length ys" by simp
  have l: "length (drop (length ys - M) ys @ zs) - M = length zs"
    using gt by simp
  have r: "length (ys @ zs) - M = length zs + (length ys - M)"
    using gt by simp
  have a: "length zs - (length ys - (length ys - M)) = length zs + (length ys - M) - length ys"
    using gt by simp
  show ?thesis
    unfolding l r by (simp add: a)
qed

lemma addMousePoint_points:
  "length (mousePoints v) \<le> maxPoints v \<Longrightarrow>
   mousePoints (addMousePoint x y l tp now v)
     = drop (Suc (length (mousePoints v)) - maxPoints v)
         (mousePoints v @ [\<lparr>point_x = x - l, point_y = y - tp, point_time = now\<rparr>])"
  by (cases "mousePoints v") (auto simp add: addMousePoint_def Let_def drop_Suc Suc_diff_le)

lemma on_mousemove_tracking:
  "mouseIsTracking (mouseTracker (on_mousemove a e)) = mouseIsTracking (mouseTracker a)"
  by (simp add: on_mousemove_tracker mousemove_tracking)

lemma on_mousemove_events:
  "mouseIsTracking (mouseTracker a) \<Longrightarrow>
   length (mouseEvents (mouseTracker (on_mousemove a e)))
     = Suc (length (mouseEvents (mouseTracker a)))"
  by (simp add: on_mousemove_tracker mousemove_def Let_def)

lemma run_tracking:
  "mouseIsTracking (mouseTracker (foldl on_mousemove a es)) = mouseIsTracking (mouseTracker a)"
  by (induction es arbitrary: a) (simp_all add: on_mousemove_tracking)

lemma run_events:
  "mouseIsTracking (mouseTracker a) \<Longrightarrow>
   length (mouseEvents (mouseTracker (foldl on_mousemove a es)))
     = length (mouseEvents (mouseTracker a)) + length es"
proof (induction es arbitrary: a)
  case Nil
  then show ?case by simp
next
  case (Cons e es)
  then show ?case
    by (simp add: on_mousemove_tracking on_mousemove_events)
qed

lemma step_points:
  assumes "length (mousePoints (visualization a)) \<le> maxPoints (visualization a)"
  shows "mousePoints (visualization (app_step a i))
      = drop (length (mousePoints (visualization a) @ recordedPoints a [i]) - maxPoints (visualization a))
          (mousePoints (visualization a) @ recordedPoints a [i])
    \<and> maxPoints (visualization (app_step a i)) = maxPoints (visualization a)"
proof (cases i)
  case (MouseMoveIn e)
  show ?thesis
  proof (cases "mouseIsTracking (mouseTracker a) \<and> ws a \<noteq> CONNECTING")
    case True
    then show ?thesis
      using addMousePoint_points [OF assms]
      by (simp add: MouseMoveIn on_mousemove_visualization pointOf_def
          addMousePoint_def [of _ _ _ _ _ "visualization a"] Let_def)
  next
    case False
    then show ?thesis
      using assms by (auto simp add: MouseMoveIn on_mousemove_visualization)
  qed
qed (use assms in \<open>simp_all add: on_mousedown_def on_mouseup_def on_wheel_def on_keydown_def
    on_keyup_def startMonitoring_def pauseMonitoring_def resetSession_def
    trackKeyboard_change_def trackMouse_change_def handleStressPrediction_def Let_def
    ws_onopen_def ws_closing_def ws_onclose_def initializeWebSocket_def\<close>)

lemma recordedPoints_Cons:
  "recordedPoints a (i # ins) = recordedPoints a [i] @ recordedPoints (app_step a i) ins"
  by (cases i) simp_all

lemma run_points_general:
  assumes "length (mousePoints (visualization a)) \<le> maxPoints (visualization a)"
  shows "mousePoints (visualization (foldl app_step a ins))
      = drop (length (mousePoints (visualization a) @ recordedPoints a ins)
                - maxPoints (visualization a))
          (mousePoints (visualization a) @ recordedPoints a ins)
    \<and> maxPoints (visualization (foldl app_step a ins)) = maxPoints (visualization a)"
  using assms
proof (induction ins arbitrary: a)
  case Nil
  then show ?case by simp
next
  case (Cons i ins)
  let ?M = "maxPoints (visualization a)"
  let ?ys = "mousePoints (visualization a) @ recordedPoints a [i]"
  let ?a' = "app_step a i"
  let ?R = "recordedPoints ?a' ins"
  from step_points [OF Cons.prems, of i]
  have pts: "mousePoints (visualization ?a') = drop (length ?ys - ?M) ?ys"
    and M: "maxPoints (visualization ?a') = ?M" by simp_all
  have len: "length (mousePoints (visualization ?a')) \<le> maxPoints (visualization ?a')"
    by (simp add: pts M)
  from Cons.IH [OF len]
  have run: "mousePoints (visualization (foldl app_step ?a' ins))
      = drop (length (mousePoints (visualization ?a') @ ?R) - ?M)
          (mousePoints (visualization ?a') @ ?R)"
    and runM: "maxPoints (visualization (foldl app_step ?a' ins)) = ?M"
    by (simp_all only: M)
  have "mousePoints (visualization (foldl app_step ?a' ins))
      = drop (length (drop (length ?ys - ?M) ?ys @ ?R) - ?M) (drop (length ?ys - ?M) ?ys @ ?R)"
    using run by (simp only: pts)
  also have "\<dots> = drop (length (?ys @ ?R) - ?M) (?ys @ ?R)"
    by (rule window_append)
  also have "?ys @ ?R = mousePoints (visualization a) @ recordedPoints a (i # ins)"
    by (simp add: recordedPoints_Cons [of a i ins])
  finally show ?case
    using runM by simp
qed

lemma session_points:
  "mousePoints (visualization (session kb ms ins))
     = drop (length (recordedPoints (new_StressDetectionApp kb ms) ins) - 1000)
         (recordedPoints (new_StressDetectionApp kb ms) ins)"
  using run_points_general [of "new_StressDetectionApp kb ms" ins]
  by (simp add: session_def new_StressDetectionApp_def new_StressVisualization_def)

lemma recorded_moves:
  "mouseIsTracking (mouseTracker a) \<Longrightarrow> ws a \<noteq> CONNECTING \<Longrightarrow>
   recordedPoints a (map MouseMoveIn es) = map pointOf es"
  by (induction es arbitrary: a) (simp_all add: on_mousemove_tracking on_mousemove_fields)

lemma recorded_replicate:
  "mouseIsTracking (mouseTracker a) \<Longrightarrow> ws a \<noteq> CONNECTING \<Longrightarrow>
   recordedPoints a (replicate n (MouseMoveIn e)) = replicate n (pointOf e)"
  using recorded_moves [of a "replicate n e"] by simp

lemma unsent_moves:
  "ws a = CONNECTING \<Longrightarrow> recordedPoints a (map MouseMoveIn es) = []"
  by (induction es arbitrary: a) (simp_all add: on_mousemove_fields)

lemma unsent_replicate:
  "ws a = CONNECTING \<Longrightarrow> recordedPoints a (replicate n (MouseMoveIn e)) = []"
  using unsent_moves [of a "replicate n e"] by simp

lemma started_app:
  "mouseIsTracking (mouseTracker (startMonitoring now (new_StressDetectionApp kb True)))"
  "mouseEvents (mouseTracker (startMonitoring now (new_StressDetectionApp kb True))) = []"
  "mousePoints (visualization (startMonitoring now (new_StressDetectionApp kb True))) = []"
  "maxPoints (visualization (startMonitoring now (new_StressDetectionApp kb True))) = 1000"
  by (simp_all add: startMonitoring_def new_StressDetectionApp_def Let_def
      MouseTracker_startTracking_def new_MouseTracker_def new_StressVisualization_def)

text \<open>
  Claim C1, as the specification states it, fails: after monitoring has started, 1001
  pointer moves leave 1001 events in the buffer \<^verbatim>\<open>mouseEvents\<close> of the tracker.
  No listener ever removes an event from that buffer.
\<close>

theorem mouseEvents_exceeds_1000:
  "\<not> length (mouseEvents (mouseTracker
        (foldl on_mousemove (startMonitoring 0 (new_StressDetectionApp True True))
           (replicate 1001 sampleMove)))) \<le> 1000"
  by (simp add: run_events started_app)

lemma opened_app:
  "mouseIsTracking (mouseTracker (startMonitoring now (ws_onopen (new_StressDetectionApp kb True))))"
  "ws (startMonitoring now (ws_onopen (new_StressDetectionApp kb True))) = OPEN"
  "ws (startMonitoring now (new_StressDetectionApp kb True)) = CONNECTING"
  by (simp_all add: startMonitoring_def ws_onopen_def new_StressDetectionApp_def Let_def
      MouseTracker_startTracking_def)

text \<open>
  Claim C1, amended.  The buffer with the capacity 1000 is \<^verbatim>\<open>mousePoints\<close> of the
  visualization, which the \<^verbatim>\<open>mousemove\<close> listener fills through
  \<^verbatim>\<open>addMousePoint\<close>: in every session it holds the last 1000 of the points handed to
  it, in order (the oldest point is dropped when a push makes it longer than 1000), so
  its length never exceeds 1000.  The buffer \<^verbatim>\<open>mouseEvents\<close> of the tracker has no
  capacity: while the tracker is tracking, any number of moves are all added to it.
\<close>

theorem mousePoints_bounded:
  "mousePoints (visualization (session kb ms ins))
     = drop (length (recordedPoints (new_StressDetectionApp kb ms) ins) - 1000)
         (recordedPoints (new_StressDetectionApp kb ms) ins)
   \<and> length (mousePoints (visualization (session kb ms ins))) \<le> 1000
   \<and> (mouseIsTracking (mouseTracker a) \<longrightarrow>
        length (mouseEvents (mouseTracker (foldl on_mousemove a es)))
          = length (mouseEvents (mouseTracker a)) + length es)"
  using run_events [of a es] by (simp add: session_points)

theorem mousePoints_bounded_witness:
  "length (mousePoints (visualization
       (session True True
          (SocketOpen # StartClick 0 # replicate 1001 (MouseMoveIn sampleMove)))))
     = 1000
   \<and> mousePoints (visualization
       (session True True (StartClick 0 # replicate 1001 (MouseMoveIn sampleMove))))
     = []
   \<and> mouseIsTracking (mouseTracker (startMonitoring 0 (new_StressDetectionApp True True)))
   \<and> length (mouseEvents (mouseTracker
        (foldl on_mousemove (startMonitoring 0 (new_StressDetectionApp True True))
           (replicate 1001 sampleMove)))) = 1001"
proof -
  let ?moves = "replicate 1001 (MouseMoveIn sampleMove)"
  let ?a = "startMonitoring 0 (new_StressDetectionApp True True)"
  from mousePoints_bounded
    [of True True "SocketOpen # StartClick 0 # ?moves" ?a "replicate 1001 sampleMove"]
    mousePoints_bounded
    [of True True "StartClick 0 # ?moves" ?a "replicate 1001 sampleMove"]
  show ?thesis
    by (simp add: recorded_replicate unsent_replicate opened_app started_app)
qed

section \<open>Pausing and starting\<close>

lemma typedAndMoved_boxes: "trackKeyboard typedAndMoved" "trackMouse typedAndMoved"
  by (simp_all add: typedAndMoved_def startMonitoring_def on_keydown_def on_mousemove_fields
      new_StressDetectionApp_def Let_def)

lemma typedAndMoved_paused:
  "length (keyEvents (keyboardTracker (pauseMonitoring typedAndMoved))) = 1"
  "totalKeyPresses (keyboardTracker (pauseMonitoring typedAndMoved)) = 1"
  "length (mouseEvents (mouseTracker (pauseMonitoring typedAndMoved))) = 1"
  by (simp_all add: typedAndMoved_def startMonitoring_def pauseMonitoring_def on_keydown_def
      on_mousemove_tracker on_mousemove_fields keydown_def mousemove_def
      new_StressDetectionApp_def Let_def KeyboardTracker_startTracking_def
      KeyboardTracker_stopTracking_def new_KeyboardTracker_def
      MouseTracker_startTracking_def MouseTracker_stopTracking_def new_MouseTracker_def)

text \<open>
  Claim C2, as the specification states it, fails.  Monitoring is started, one key is
  pressed, monitoring is paused and started again: the keyboard buffer, which held one
  event at the pause, is empty.
\<close>

theorem start_after_pause_clears:
  "keyEvents (keyboardTracker (startMonitoring 2 (pauseMonitoring typedAndMoved)))
     \<noteq> keyEvents (keyboardTracker (pauseMonitoring typedAndMoved))"
proof -
  have "keyEvents (keyboardTracker (startMonitoring 2 (pauseMonitoring typedAndMoved))) = []"
    using typedAndMoved_boxes
    by (simp add: startMonitoring_def pauseMonitoring_def Let_def
        KeyboardTracker_startTracking_def)
  moreover have "keyEvents (keyboardTracker (pauseMonitoring typedAndMoved)) \<noteq> []"
    using typedAndMoved_paused(1) by auto
  ultimately show ?thesis by simp
qed

text \<open>
  Claim C2, amended.  \<^verbatim>\<open>pauseMonitoring\<close> keeps the buffers and the counters of both
  trackers.  \<^verbatim>\<open>startMonitoring\<close> does not tell a paused session from an idle one: after
  a pause followed by a start, monitoring is on, and every tracker whose check box is
  ticked has an empty buffer and counters at 0, as after a start from the idle state; a
  tracker whose check box is not ticked is left as the pause left it.
\<close>

theorem start_after_pause:
  "keyEvents (keyboardTracker (pauseMonitoring a)) = keyEvents (keyboardTracker a)
   \<and> totalKeyPresses (keyboardTracker (pauseMonitoring a)) = totalKeyPresses (keyboardTracker a)
   \<and> backspaceCount (keyboardTracker (pauseMonitoring a)) = backspaceCount (keyboardTracker a)
   \<and> mouseEvents (mouseTracker (pauseMonitoring a)) = mouseEvents (mouseTracker a)
   \<and> clickCount (mouseTracker (pauseMonitoring a)) = clickCount (mouseTracker a)
   \<and> totalDistance (mouseTracker (pauseMonitoring a)) = totalDistance (mouseTracker a)
   \<and> isMonitoring (startMonitoring now (pauseMonitoring a))
   \<and> (trackKeyboard a \<longrightarrow>
        keyEvents (keyboardTracker (startMonitoring now (pauseMonitoring a))) = []
        \<and> totalKeyPresses (keyboardTracker (startMonitoring now (pauseMonitoring a))) = 0
        \<and> backspaceCount (keyboardTracker (startMonitoring now (pauseMonitoring a))) = 0)
   \<and> (trackMouse a \<longrightarrow>
        mouseEvents (mouseTracker (startMonitoring now (pauseMonitoring a))) = []
        \<and> clickCount (mouseTracker (startMonitoring now (pauseMonitoring a))) = 0
        \<and> totalDistance (mouseTracker (startMonitoring now (pauseMonitoring a))) = 0)
   \<and> (\<not> trackKeyboard a \<longrightarrow>
        keyboardTracker (startMonitoring now (pauseMonitoring a))
          = keyboardTracker (pauseMonitoring a))
   \<and> (\<not> trackMouse a \<longrightarrow>
        mouseTracker (startMonitoring now (pauseMonitoring a))
          = mouseTracker (pauseMonitoring a))"
  by (simp add: startMonitoring_def pauseMonitoring_def Let_def
      KeyboardTracker_startTracking_def KeyboardTracker_stopTracking_def
      MouseTracker_startTracking_def MouseTracker_stopTracking_def)

theorem start_after_pause_witness:
  "trackKeyboard typedAndMoved \<and> trackMouse typedAndMoved
   \<and> length (keyEvents (keyboardTracker (pauseMonitoring typedAndMoved))) = 1
   \<and> length (mouseEvents (mouseTracker (pauseMonitoring typedAndMoved))) = 1
   \<and> keyEvents (keyboardTracker (startMonitoring 2 (pauseMonitoring typedAndMoved))) = []
   \<and> mouseEvents (mouseTracker (startMonitoring 2 (pauseMonitoring typedAndMoved))) = []
   \<and> totalKeyPresses (keyboardTracker (startMonitoring 2 (pauseMonitoring typedAndMoved))) = 0"
  using start_after_pause [of typedAndMoved 2] typedAndMoved_boxes typedAndMoved_paused
  by simp

end
